theory Spec2Isabelle
  imports Complex_Main "HOL-Library.Sublist"
begin

section \<open>Shared vocabulary\<close>

text \<open>
  Python exceptions are values. The constructor names the exception class, the
  string is what \<^verbatim>\<open>str(e)\<close> yields.
\<close>

datatype exn =
    ValueError string
  | AttributeError string
  | TypeError string
  | KeyError string
  | RepositoryError string
  | UnsupportedUrlError string
  | DownloadError string

fun str_of :: "exn \<Rightarrow> string" where
  "str_of (ValueError m) = m"
| "str_of (AttributeError m) = m"
| "str_of (TypeError m) = m"
| "str_of (KeyError m) = m"
| "str_of (RepositoryError m) = m"
| "str_of (UnsupportedUrlError m) = m"
| "str_of (DownloadError m) = m"

text \<open>
  A naive \<^verbatim>\<open>datetime\<close> is a count of microseconds, a \<^verbatim>\<open>timedelta\<close> the difference
  of two of them. \<^verbatim>\<open>datetime.now()\<close> is an argument of every operation that reads the
  clock. \<^verbatim>\<open>isoformat\<close> followed by \<^verbatim>\<open>fromisoformat\<close> is the identity on naive
  datetimes, so stored timestamps are kept as datetimes.
\<close>

type_synonym datetime = int
type_synonym timedelta = int

definition seconds :: "int \<Rightarrow> timedelta" where
  "seconds n = n * 1000000"

definition total_seconds :: "timedelta \<Rightarrow> real" where
  "total_seconds d = real_of_int d / 1000000"


section \<open>The DownloadRequest entity (domain/entities/download\_request.py)\<close>

datatype download_status = PENDING | PROCESSING | COMPLETED | FAILED | CANCELLED

datatype platform = INSTAGRAM | TIKTOK

record download_request =
  req_id :: string
  user_id :: int
  url :: string
  platform :: "platform option"
  status :: download_status
  created_at :: "datetime option"
  started_at :: "datetime option"
  completed_at :: "datetime option"
  error_message :: "string option"
  retry_count :: int
  max_retries :: int
  media_files :: "string list"
  metadata :: "(string \<times> string) list"
  total_size :: "int option"
  processing_time :: "real option"

definition start_processing :: "datetime \<Rightarrow> download_request \<Rightarrow> download_request" where
  "start_processing now r = r\<lparr>status := PROCESSING, started_at := Some now\<rparr>"

definition complete_successfully ::
  "datetime \<Rightarrow> string list \<Rightarrow> int option \<Rightarrow> download_request \<Rightarrow> download_request" where
  "complete_successfully now files tsize r =
     (let r1 = r\<lparr>status := COMPLETED, completed_at := Some now, media_files := files,
                   total_size := tsize\<rparr>
      in case started_at r1 of
           None \<Rightarrow> r1
         | Some s \<Rightarrow> r1\<lparr>processing_time := Some (total_seconds (now - s))\<rparr>)"

definition fail :: "datetime \<Rightarrow> string \<Rightarrow> download_request \<Rightarrow> download_request" where
  "fail now msg r =
     (let r1 = r\<lparr>status := FAILED, completed_at := Some now, error_message := Some msg\<rparr>
      in case started_at r1 of
           None \<Rightarrow> r1
         | Some s \<Rightarrow> r1\<lparr>processing_time := Some (total_seconds (now - s))\<rparr>)"

definition cancel :: "datetime \<Rightarrow> download_request \<Rightarrow> download_request" where
  "cancel now r =
     (let r1 = r\<lparr>status := CANCELLED, completed_at := Some now\<rparr>
      in case started_at r1 of
           None \<Rightarrow> r1
         | Some s \<Rightarrow> r1\<lparr>processing_time := Some (total_seconds (now - s))\<rparr>)"

definition can_retry :: "download_request \<Rightarrow> bool" where
  "can_retry r \<longleftrightarrow> retry_count r < max_retries r \<and> status r = FAILED"

definition increment_retry :: "download_request \<Rightarrow> download_request" where
  "increment_retry r =
     (if can_retry r
      then r\<lparr>retry_count := retry_count r + 1, status := PENDING, error_message := None,
             started_at := None, completed_at := None\<rparr>
      else r)"

text \<open>
  Python's \<^verbatim>\<open>sub in s\<close> on strings: \<open>sub\<close> occurs in \<open>s\<close> as a contiguous block.
\<close>

fun str_in :: "string \<Rightarrow> string \<Rightarrow> bool" where
  "str_in sub [] = (sub = [])"
| "str_in sub (c # cs) = (prefix sub (c # cs) \<or> str_in sub cs)"

text \<open>
  The dataclass constructor as the use case and the repository call it: the caller
  supplies id, user id, URL and platform, every other field takes its default, and
  \<^verbatim>\<open>__post_init__\<close> stamps \<open>created_at\<close> and infers a missing platform from the URL.
\<close>

definition infer_platform :: "string \<Rightarrow> platform option" where
  "infer_platform u =
     (if str_in ''instagram.com'' u \<or> str_in ''instagr.am'' u then Some INSTAGRAM
      else if str_in ''tiktok.com'' u \<or> str_in ''vm.tiktok.com'' u then Some TIKTOK
      else None)"

definition post_init :: "datetime \<Rightarrow> download_request \<Rightarrow> download_request" where
  "post_init now r =
     (let r1 = (if created_at r = None then r\<lparr>created_at := Some now\<rparr> else r)
      in if platform r1 = None \<and> url r1 \<noteq> [] then r1\<lparr>platform := infer_platform (url r1)\<rparr>
         else r1)"

definition DownloadRequest ::
  "datetime \<Rightarrow> string \<Rightarrow> int \<Rightarrow> string \<Rightarrow> platform option \<Rightarrow> download_request" where
  "DownloadRequest now rid uid u p =
     post_init now
       \<lparr>req_id = rid, user_id = uid, url = u, platform = p, status = PENDING,
        created_at = None, started_at = None, completed_at = None, error_message = None,
        retry_count = 0, max_retries = 3, media_files = [], metadata = [],
        total_size = None, processing_time = None\<rparr>"

text \<open>
  A call of one of the entity's state-changing methods, with the clock reading it
  takes, and a sequence of such calls on one request.
\<close>

datatype request_op =
    StartProcessing datetime
  | CompleteSuccessfully datetime "string list" "int option"
  | Fail datetime string
  | Cancel datetime
  | IncrementRetry

fun apply_op :: "download_request \<Rightarrow> request_op \<Rightarrow> download_request" where
  "apply_op r (StartProcessing now) = start_processing now r"
| "apply_op r (CompleteSuccessfully now files tsize) = complete_successfully now files tsize r"
| "apply_op r (Fail now msg) = fail now msg r"
| "apply_op r (Cancel now) = cancel now r"
| "apply_op r IncrementRetry = increment_retry r"

definition run_ops :: "download_request \<Rightarrow> request_op list \<Rightarrow> download_request" where
  "run_ops r ops = foldl apply_op r ops"

text \<open>
  The documented relation between the three time fields: a processing time that is
  set is the difference, in seconds, of the completion and start stamps (so both are set).
\<close>

definition duration_consistent :: "download_request \<Rightarrow> bool" where
  "duration_consistent r =
     (case processing_time r of
        None \<Rightarrow> True
      | Some p \<Rightarrow>
          (case (started_at r, completed_at r) of
             (Some s, Some c) \<Rightarrow> p = total_seconds (c - s)
           | _ \<Rightarrow> False))"

text \<open>
  Sequences that keep the time fields in step: processing is started only on a request
  without a recorded processing time, and a retry either changes nothing or is made on
  a request without a recorded processing time. The entity itself checks neither.
\<close>

fun well_timed :: "download_request \<Rightarrow> request_op list \<Rightarrow> bool" where
  "well_timed r [] = True"
| "well_timed r (StartProcessing now # ops) =
     (processing_time r = None \<and> well_timed (start_processing now r) ops)"
| "well_timed r (IncrementRetry # ops) =
     ((\<not> can_retry r \<or> processing_time r = None) \<and> well_timed (increment_retry r) ops)"
| "well_timed r (x # ops) = well_timed (apply_op r x) ops"


section \<open>URL recognition by the platform adapters\<close>

text \<open>
  The adapters recognise a URL with \<^verbatim>\<open>re.match\<close>, which succeeds when some prefix of
  the string matches the pattern. The patterns use literals, optional groups,
  alternatives and one-or-more repetitions of a character class. \<open>rests r s\<close> lists, in
  the order a backtracking matcher tries them, what is left of \<open>s\<close> after each way of
  matching \<open>r\<close> at its start. A character of a URL is a value of type \<open>char\<close>, read as the code point of its number.
  On ASCII characters \<^verbatim>\<open>\w\<close> is a letter, a digit or the underscore and \<^verbatim>\<open>\d\<close> a
  digit. On \<^verbatim>\<open>str\<close> patterns \<^verbatim>\<open>re\<close> follows Unicode: beyond ASCII \<^verbatim>\<open>\w\<close> accepts
  the characters the Unicode database calls alphanumeric and \<^verbatim>\<open>\d\<close> its decimal
  digits. The database is a parameter of the patterns; \<open>latin1\<close> is what it says of
  the code points 128 to 255.
\<close>

datatype rx =
    Lit string
  | Opt rx
  | Alt rx rx
  | Plus "char \<Rightarrow> bool"
  | Seq rx rx

fun rests :: "rx \<Rightarrow> string \<Rightarrow> string list" where
  "rests (Lit l) s = (if prefix l s then [drop (length l) s] else [])"
| "rests (Opt r) s = rests r s @ [s]"
| "rests (Alt a b) s = rests a s @ rests b s"
| "rests (Plus p) s = map (\<lambda>k. drop k s) (rev [1 ..< Suc (length (takeWhile p s))])"
| "rests (Seq a b) s = concat (map (rests b) (rests a s))"

definition re_match :: "rx \<Rightarrow> string \<Rightarrow> bool" where
  "re_match r s \<longleftrightarrow> rests r s \<noteq> []"

fun seqs :: "rx list \<Rightarrow> rx" where
  "seqs [] = Lit []"
| "seqs [r] = r"
| "seqs (r # rs) = Seq r (seqs rs)"

record unicode_tables =
  alnum :: "char \<Rightarrow> bool"
  decimal :: "char \<Rightarrow> bool"

definition is_digit :: "unicode_tables \<Rightarrow> char \<Rightarrow> bool" where
  \<comment> \<open>\<^verbatim>\<open>\d\<close>\<close>
  "is_digit T c \<longleftrightarrow>
     (let n = (of_char c :: nat)
      in if n < 128 then 48 \<le> n \<and> n \<le> 57 else decimal T c)"

definition is_word :: "unicode_tables \<Rightarrow> char \<Rightarrow> bool" where
  \<comment> \<open>\<^verbatim>\<open>\w\<close>\<close>
  "is_word T c \<longleftrightarrow>
     (let n = (of_char c :: nat)
      in if n < 128
         then (48 \<le> n \<and> n \<le> 57) \<or> (65 \<le> n \<and> n \<le> 90) \<or> (97 \<le> n \<and> n \<le> 122) \<or> n = 95
         else alnum T c)"

definition word_dash :: "unicode_tables \<Rightarrow> char \<Rightarrow> bool" where
  \<comment> \<open>\<^verbatim>\<open>[\w-]\<close>\<close>
  "word_dash T c \<longleftrightarrow> is_word T c \<or> c = CHR ''-''"

definition word_dot_dash :: "unicode_tables \<Rightarrow> char \<Rightarrow> bool" where
  \<comment> \<open>\<^verbatim>\<open>[\w.-]\<close>\<close>
  "word_dot_dash T c \<longleftrightarrow> is_word T c \<or> c = CHR ''.'' \<or> c = CHR ''-''"

definition latin1 :: unicode_tables where
  "latin1 =
     \<lparr>alnum = (\<lambda>c. let n = (of_char c :: nat)
                   in n \<in> set [170, 178, 179, 181, 185, 186, 188, 189, 190]
                      \<or> (192 \<le> n \<and> n \<le> 214) \<or> (216 \<le> n \<and> n \<le> 246) \<or> 248 \<le> n),
      decimal = (\<lambda>c. False)\<rparr>"

definition https :: "rx list" where
  \<comment> \<open>\<^verbatim>\<open>https?://\<close>\<close>
  "https = [Lit ''http'', Opt (Lit ''s''), Lit ''://'']"

definition instagram_patterns :: "unicode_tables \<Rightarrow> rx list" where
  "instagram_patterns T =
     [seqs (https @ [Opt (Lit ''www.''), Lit ''instagram.com/p/'', Plus (word_dash T)]),
      seqs (https @ [Opt (Lit ''www.''), Lit ''instagram.com/reel/'', Plus (word_dash T)]),
      seqs (https @ [Opt (Lit ''www.''), Lit ''instagram.com/tv/'', Plus (word_dash T)]),
      seqs (https @ [Opt (Lit ''www.''), Lit ''instagram.com/stories/'', Plus (word_dot_dash T),
                     Lit ''/'', Plus (is_digit T)]),
      seqs (https @ [Opt (Lit ''www.''), Lit ''instagr.am/p/'', Plus (word_dash T)])]"

definition tiktok_patterns :: "unicode_tables \<Rightarrow> rx list" where
  "tiktok_patterns T =
     [seqs (https @ [Opt (Lit ''www.''), Lit ''tiktok.com/@'', Plus (word_dot_dash T),
                     Lit ''/video/'', Plus (is_digit T)]),
      seqs (https @ [Opt (Alt (Lit ''vm.'') (Lit ''vt.'')), Lit ''tiktok.com/'', Plus (word_dot_dash T)]),
      seqs (https @ [Opt (Lit ''www.''), Lit ''tiktok.com/t/'', Plus (word_dot_dash T)]),
      seqs (https @ [Lit ''m.tiktok.com/v/'', Plus (is_digit T)])]"

definition instagram_can_handle :: "unicode_tables \<Rightarrow> string \<Rightarrow> bool" where
  "instagram_can_handle T u \<longleftrightarrow> list_ex (\<lambda>pattern. re_match pattern u) (instagram_patterns T)"

definition tiktok_can_handle :: "unicode_tables \<Rightarrow> string \<Rightarrow> bool" where
  "tiktok_can_handle T u \<longleftrightarrow> list_ex (\<lambda>pattern. re_match pattern u) (tiktok_patterns T)"


section \<open>The composite dispatcher (composite\_downloader\_service.py)\<close>

text \<open>
  A member of the composite is any implementation of the downloader port: its class
  name, its URL test and its operations. What an operation fetches from the network is
  opaque here: a string for an info dictionary, a list of file paths for a download.
\<close>

record adapter =
  cls :: string
  can_handle :: "string \<Rightarrow> bool"
  extract_media_info :: "string \<Rightarrow> exn + string"
  download_media :: "download_request \<Rightarrow> exn + string list"
  get_media_metadata :: "string \<Rightarrow> exn + string option"
  validate_url :: "string \<Rightarrow> exn + bool"
  get_supported_platforms :: "string list"

definition composite_can_handle :: "adapter list \<Rightarrow> string \<Rightarrow> bool" where
  "composite_can_handle downloaders u \<longleftrightarrow> list_ex (\<lambda>d. can_handle d u) downloaders"

definition get_handler :: "adapter list \<Rightarrow> string \<Rightarrow> adapter option" where
  "get_handler downloaders u = find (\<lambda>d. can_handle d u) downloaders"

definition composite_extract_media_info :: "adapter list \<Rightarrow> string \<Rightarrow> exn + string" where
  "composite_extract_media_info downloaders u =
     (case get_handler downloaders u of
        None \<Rightarrow> Inl (UnsupportedUrlError (''No handler found for URL: '' @ u))
      | Some handler \<Rightarrow> extract_media_info handler u)"

definition composite_download_media :: "adapter list \<Rightarrow> download_request \<Rightarrow> exn + string list" where
  "composite_download_media downloaders request =
     (case get_handler downloaders (url request) of
        None \<Rightarrow> Inl (UnsupportedUrlError (''No handler found for URL: '' @ url request))
      | Some handler \<Rightarrow> download_media handler request)"

definition composite_get_media_metadata :: "adapter list \<Rightarrow> string \<Rightarrow> exn + string option" where
  "composite_get_media_metadata downloaders u =
     (case get_handler downloaders u of
        None \<Rightarrow> Inr None
      | Some handler \<Rightarrow> get_media_metadata handler u)"

definition composite_validate_url :: "adapter list \<Rightarrow> string \<Rightarrow> exn + bool" where
  "composite_validate_url downloaders u =
     (case get_handler downloaders u of
        None \<Rightarrow> Inr False
      | Some handler \<Rightarrow> validate_url handler u)"

text \<open>
  The two adapters the container registers, Instagram first. Their network access is
  a parameter: \<open>info\<close> is the adapter's own \<^verbatim>\<open>extract_media_info\<close>, \<open>dl\<close> its
  \<^verbatim>\<open>download_media\<close>. The metadata and validation operations wrap
  \<^verbatim>\<open>extract_media_info\<close> in a try block, as in the source.
\<close>

definition InstagramDownloaderService ::
  "unicode_tables \<Rightarrow> (string \<Rightarrow> exn + string) \<Rightarrow> (download_request \<Rightarrow> exn + string list) \<Rightarrow> adapter" where
  "InstagramDownloaderService T info dl =
     \<lparr>cls = ''InstagramDownloaderService'',
      can_handle = instagram_can_handle T,
      extract_media_info = info,
      download_media = dl,
      get_media_metadata = (\<lambda>u. case info u of Inl e \<Rightarrow> Inr None | Inr i \<Rightarrow> Inr (Some i)),
      validate_url = (\<lambda>u. case info u of Inl e \<Rightarrow> Inr False | Inr i \<Rightarrow> Inr True),
      get_supported_platforms = [''instagram'']\<rparr>"

definition TikTokDownloaderService ::
  "unicode_tables \<Rightarrow> (string \<Rightarrow> exn + string) \<Rightarrow> (download_request \<Rightarrow> exn + string list) \<Rightarrow> adapter" where
  "TikTokDownloaderService T info dl =
     \<lparr>cls = ''TikTokDownloaderService'',
      can_handle = tiktok_can_handle T,
      extract_media_info = info,
      download_media = dl,
      get_media_metadata = (\<lambda>u. case info u of Inl e \<Rightarrow> Inr None | Inr i \<Rightarrow> Inr (Some i)),
      validate_url = (\<lambda>u. case info u of Inl e \<Rightarrow> Inr False | Inr i \<Rightarrow> Inr True),
      get_supported_platforms = [''tiktok'']\<rparr>"

definition container_downloaders ::
  "unicode_tables \<Rightarrow> (string \<Rightarrow> exn + string) \<Rightarrow> (download_request \<Rightarrow> exn + string list) \<Rightarrow> adapter list" where
  "container_downloaders T info dl =
     [InstagramDownloaderService T info dl, TikTokDownloaderService T info dl]"

definition get_platform_for_url :: "adapter list \<Rightarrow> string \<Rightarrow> string option" where
  "get_platform_for_url downloaders u =
     (case get_handler downloaders u of
        None \<Rightarrow> None
      | Some handler \<Rightarrow>
          (case get_supported_platforms handler of [] \<Rightarrow> None | p # ps \<Rightarrow> Some p))"

text \<open>A network that is down: every fetch fails.\<close>

definition offline_info :: "string \<Rightarrow> exn + string" where
  "offline_info u = Inl (DownloadError ''Failed to extract media info: offline'')"

definition offline_dl :: "download_request \<Rightarrow> exn + string list" where
  "offline_dl r = Inl (DownloadError ''Failed to download media: offline'')"


text \<open>
  A pattern is sure to consume the text \<open>sub\<close> when \<open>sub\<close> lies inside one of its
  mandatory literals.
\<close>

fun must_contain :: "string \<Rightarrow> rx \<Rightarrow> bool" where
  "must_contain sub (Lit l) = str_in sub l"
| "must_contain sub (Opt r) = False"
| "must_contain sub (Alt a b) = (must_contain sub a \<and> must_contain sub b)"
| "must_contain sub (Plus p) = False"
| "must_contain sub (Seq a b) = (must_contain sub a \<or> must_contain sub b)"

text \<open>Sample values used to exercise the theorems below.\<close>

definition sample_request :: download_request where
  "sample_request = DownloadRequest 0 ''req-1'' 7 ''https://www.instagram.com/p/ABC123/'' None"

definition sample_failed :: download_request where
  "sample_failed = fail 3000000 ''boom'' (start_processing 1000000 sample_request)"

definition wired :: "adapter list" where
  "wired = container_downloaders latin1 offline_info offline_dl"


section \<open>JSON files\<close>

text \<open>
  Every JSON-backed component keeps one file and goes through the same two helpers.
  A file is what it holds once parsed (\<open>None\<close> when the text is not valid JSON),
  whether reading and writing it succeed, and how many times it has been written.
  \<^verbatim>\<open>_read_data\<close> resets a file that does not parse to the empty value and returns
  that; any other failure is a RepositoryError. The shape of a parsed value is fixed
  by the type: a file that parses to JSON of another shape is outside the model.
\<close>

record 'a disk =
  content :: "'a option"
  readable :: bool
  writable :: bool
  writes :: nat

definition write_data :: "'a disk \<Rightarrow> 'a \<Rightarrow> exn + 'a disk" where
  "write_data d x =
     (if writable d then Inr (d\<lparr>content := Some x, writes := Suc (writes d)\<rparr>)
      else Inl (RepositoryError ''Failed to write data''))"

definition read_data :: "'a \<Rightarrow> 'a disk \<Rightarrow> exn + ('a \<times> 'a disk)" where
  "read_data blank d =
     (if \<not> readable d then Inl (RepositoryError ''Failed to read data'')
      else case content d of
             Some x \<Rightarrow> Inr (x, d)
           | None \<Rightarrow>
               (case write_data d blank of
                  Inl e \<Rightarrow> Inl e
                | Inr d' \<Rightarrow> Inr (blank, d')))"

definition healthy :: "'a disk \<Rightarrow> bool" where
  "healthy d \<longleftrightarrow> readable d \<and> writable d \<and> content d \<noteq> None"

definition stored :: "'a list disk \<Rightarrow> 'a list" where
  "stored d = (case content d of None \<Rightarrow> [] | Some xs \<Rightarrow> xs)"


section \<open>The analytics repository (json\_analytics\_repository.py)\<close>

datatype analytics_event_type =
    DOWNLOAD_START | DOWNLOAD_SUCCESS | DOWNLOAD_FAILED | USER_JOINED | USER_BANNED
  | COMMAND_USED | ERROR_OCCURRED

fun event_value :: "analytics_event_type \<Rightarrow> string" where
  "event_value DOWNLOAD_START = ''download_start''"
| "event_value DOWNLOAD_SUCCESS = ''download_success''"
| "event_value DOWNLOAD_FAILED = ''download_failed''"
| "event_value USER_JOINED = ''user_joined''"
| "event_value USER_BANNED = ''user_banned''"
| "event_value COMMAND_USED = ''command_used''"
| "event_value ERROR_OCCURRED = ''error_occurred''"

record analytics =
  an_id :: string
  an_user_id :: int
  an_event_type :: analytics_event_type
  an_platform :: "string option"
  an_media_type :: "string option"
  an_url :: "string option"
  an_file_size :: "int option"
  an_processing_time :: "real option"
  an_success :: bool
  an_error_message :: "string option"
  an_metadata :: "(string \<times> string) list"
  an_created_at :: "datetime option"

record analytics_dict =
  ad_id :: string
  ad_user_id :: int
  ad_event_type :: string
  ad_platform :: "string option"
  ad_media_type :: "string option"
  ad_url :: "string option"
  ad_file_size :: "int option"
  ad_processing_time :: "real option"
  ad_success :: bool
  ad_error_message :: "string option"
  ad_metadata :: "(string \<times> string) list"
  ad_created_at :: "datetime option"

definition analytics_to_dict :: "analytics \<Rightarrow> analytics_dict" where
  "analytics_to_dict a =
     \<lparr>ad_id = an_id a, ad_user_id = an_user_id a, ad_event_type = event_value (an_event_type a),
      ad_platform = an_platform a, ad_media_type = an_media_type a, ad_url = an_url a,
      ad_file_size = an_file_size a, ad_processing_time = an_processing_time a,
      ad_success = an_success a, ad_error_message = an_error_message a,
      ad_metadata = an_metadata a, ad_created_at = an_created_at a\<rparr>"

definition analytics_save ::
  "analytics_dict list disk \<Rightarrow> analytics \<Rightarrow> exn + (analytics \<times> analytics_dict list disk)" where
  "analytics_save d a =
     (case read_data [] d of
        Inl e \<Rightarrow> Inl (RepositoryError (''Failed to save analytics: '' @ str_of e))
      | Inr (data, d1) \<Rightarrow>
          (case write_data d1 (data @ [analytics_to_dict a]) of
             Inl e \<Rightarrow> Inl (RepositoryError (''Failed to save analytics: '' @ str_of e))
           | Inr d2 \<Rightarrow> Inr (a, d2)))"


section \<open>The download request repository (json\_download\_request\_repository.py)\<close>

record request_dict =
  rd_id :: string
  rd_user_id :: int
  rd_url :: string
  rd_platform :: "string option"
  rd_status :: string
  rd_created_at :: "datetime option"
  rd_started_at :: "datetime option"
  rd_completed_at :: "datetime option"
  rd_error_message :: "string option"
  rd_retry_count :: int
  rd_max_retries :: int
  rd_media_files :: "string list"
  rd_metadata :: "(string \<times> string) list"
  rd_total_size :: "int option"
  rd_processing_time :: "real option"

fun status_value :: "download_status \<Rightarrow> string" where
  "status_value PENDING = ''pending''"
| "status_value PROCESSING = ''processing''"
| "status_value COMPLETED = ''completed''"
| "status_value FAILED = ''failed''"
| "status_value CANCELLED = ''cancelled''"

definition truthy :: "string option \<Rightarrow> bool" where
  \<comment> \<open>\<^verbatim>\<open>if error_message:\<close> on an optional string\<close>
  "truthy m \<longleftrightarrow> (case m of None \<Rightarrow> False | Some t \<Rightarrow> t \<noteq> [])"

definition set_status ::
  "datetime \<Rightarrow> string \<Rightarrow> string option \<Rightarrow> request_dict \<Rightarrow> request_dict" where
  \<comment> \<open>the body of the loop of \<^verbatim>\<open>update_status\<close> on the matching record\<close>
  "set_status now st msg x =
     (let x1 = x\<lparr>rd_status := st\<rparr>;
          x2 = (if truthy msg then x1\<lparr>rd_error_message := msg\<rparr> else x1)
      in if st \<in> set [status_value COMPLETED, status_value FAILED, status_value CANCELLED]
         then x2\<lparr>rd_completed_at := Some now\<rparr>
         else if st = status_value PROCESSING then x2\<lparr>rd_started_at := Some now\<rparr>
         else x2)"

fun update_first ::
  "string \<Rightarrow> (request_dict \<Rightarrow> request_dict) \<Rightarrow> request_dict list \<Rightarrow> request_dict list option" where
  "update_first rid f [] = None"
| "update_first rid f (x # xs) =
     (if rd_id x = rid then Some (f x # xs)
      else map_option ((#) x) (update_first rid f xs))"

definition update_status ::
  "datetime \<Rightarrow> request_dict list disk \<Rightarrow> string \<Rightarrow> string \<Rightarrow> string option
     \<Rightarrow> exn + (bool \<times> request_dict list disk)" where
  "update_status now d request_id st msg =
     (case read_data [] d of
        Inl e \<Rightarrow> Inl (RepositoryError (''Failed to update request status: '' @ str_of e))
      | Inr (data, d1) \<Rightarrow>
          (case update_first request_id (set_status now st msg) data of
             None \<Rightarrow> Inr (False, d1)
           | Some data' \<Rightarrow>
               (case write_data d1 data' of
                  Inl e \<Rightarrow> Inl (RepositoryError (''Failed to update request status: '' @ str_of e))
                | Inr d2 \<Rightarrow> Inr (True, d2))))"



fun platform_value :: "platform \<Rightarrow> string" where
  "platform_value INSTAGRAM = ''instagram''"
| "platform_value TIKTOK = ''tiktok''"

definition request_to_dict :: "download_request \<Rightarrow> request_dict" where
  "request_to_dict r =
     \<lparr>rd_id = req_id r, rd_user_id = user_id r, rd_url = url r,
      rd_platform = map_option platform_value (platform r), rd_status = status_value (status r),
      rd_created_at = created_at r, rd_started_at = started_at r,
      rd_completed_at = completed_at r, rd_error_message = error_message r,
      rd_retry_count = retry_count r, rd_max_retries = max_retries r,
      rd_media_files = media_files r, rd_metadata = metadata r, rd_total_size = total_size r,
      rd_processing_time = processing_time r\<rparr>"

text \<open>Sample stores.\<close>

definition sample_analytics :: analytics where
  "sample_analytics =
     \<lparr>an_id = ''a-1'', an_user_id = 7, an_event_type = DOWNLOAD_SUCCESS,
      an_platform = Some ''instagram'', an_media_type = None, an_url = None,
      an_file_size = None, an_processing_time = Some 2, an_success = True,
      an_error_message = None, an_metadata = [], an_created_at = Some 0\<rparr>"

definition sample_row :: analytics_dict where
  "sample_row =
     \<lparr>ad_id = ''a-1'', ad_user_id = 7, ad_event_type = ''download_success'',
      ad_platform = Some ''instagram'', ad_media_type = None, ad_url = None,
      ad_file_size = None, ad_processing_time = Some 2, ad_success = True,
      ad_error_message = None, ad_metadata = [], ad_created_at = Some 0\<rparr>"

definition sample_request_disk :: "request_dict list disk" where
  "sample_request_disk =
     \<lparr>content = Some [request_to_dict sample_request,
                       request_to_dict (sample_failed\<lparr>req_id := ''req-2''\<rparr>)],
      readable = True, writable = True, writes = 0\<rparr>"



section \<open>The rate limiter (json\_rate\_limiter\_service.py)\<close>

text \<open>
  The file holds a dictionary from user keys to user entries. The user key
  \<^verbatim>\<open>user_<id>\<close> is one-to-one with the user id and the action key
  \<^verbatim>\<open>action_<name>\<close> with the action name, so the maps are indexed by id and by name.
  An entry holds the per-action counters, the optional \<^verbatim>\<open>custom_limits\<close> table and the
  optional \<^verbatim>\<open>blocked_until\<close> mark; \<open>None\<close> is an absent key. A counter dictionary may
  lack either of its two keys. Time stamps are kept parsed.
\<close>

record limit_config =
  requests :: int
  period_seconds :: int

record action_data =
  used :: "int option"
  reset_time :: "datetime option"

datatype block = Permanent | Until datetime

record user_data =
  actions :: "string \<rightharpoonup> action_data"
  custom_limits :: "(string \<rightharpoonup> limit_config) option"
  blocked_until :: "block option"

type_synonym limits = "int \<rightharpoonup> user_data"

text \<open>Settings, at the defaults they take when the environment sets nothing.\<close>

definition DOWNLOAD_RATE_LIMIT :: int where "DOWNLOAD_RATE_LIMIT = 5"
definition DOWNLOAD_RATE_PERIOD :: int where "DOWNLOAD_RATE_PERIOD = 300"
definition RATE_LIMIT_REQUESTS :: int where "RATE_LIMIT_REQUESTS = 10"
definition RATE_LIMIT_PERIOD :: int where "RATE_LIMIT_PERIOD = 60"

definition default_limits :: "string \<rightharpoonup> limit_config" where
  "default_limits =
     [''download'' \<mapsto> \<lparr>requests = DOWNLOAD_RATE_LIMIT, period_seconds = DOWNLOAD_RATE_PERIOD\<rparr>,
      ''message'' \<mapsto> \<lparr>requests = RATE_LIMIT_REQUESTS, period_seconds = RATE_LIMIT_PERIOD\<rparr>]"

definition empty_user_data :: user_data where
  \<comment> \<open>the \<^verbatim>\<open>{}\<close> that \<^verbatim>\<open>data.get(user_key, {})\<close> falls back to\<close>
  "empty_user_data = \<lparr>actions = Map.empty, custom_limits = None, blocked_until = None\<rparr>"

definition get_user :: "limits \<Rightarrow> int \<Rightarrow> user_data" where
  "get_user data uid = (case data uid of None \<Rightarrow> empty_user_data | Some ud \<Rightarrow> ud)"

definition get_limit_config :: "user_data \<Rightarrow> string \<Rightarrow> limit_config" where
  "get_limit_config ud action =
     (let custom = (case custom_limits ud of None \<Rightarrow> Map.empty | Some c \<Rightarrow> c)
      in case custom action of
           Some cfg \<Rightarrow> cfg
         | None \<Rightarrow>
             (case default_limits action of
                Some cfg \<Rightarrow> cfg
              | None \<Rightarrow> \<lparr>requests = 10, period_seconds = 60\<rparr>))"

definition y2000 :: datetime where
  \<comment> \<open>\<^verbatim>\<open>2000-01-01T00:00:00\<close>, counted from 1970\<close>
  "y2000 = seconds 946684800"

definition is_user_blocked :: "datetime \<Rightarrow> limits disk \<Rightarrow> int \<Rightarrow> bool \<times> limits disk" where
  "is_user_blocked now d uid =
     (case read_data Map.empty d of
        Inl e \<Rightarrow> (False, d)
      | Inr (data, d1) \<Rightarrow>
          (case blocked_until (get_user data uid) of
             None \<Rightarrow> (False, d1)
           | Some Permanent \<Rightarrow> (True, d1)
           | Some (Until block_time) \<Rightarrow> (now < block_time, d1)))"

text \<open>
  \<open>is_rate_limited\<close> reads the clock twice: \<open>now0\<close> inside \<open>is_user_blocked\<close>, \<open>now\<close>
  for the window test.
\<close>

definition is_rate_limited ::
  "datetime \<Rightarrow> datetime \<Rightarrow> limits disk \<Rightarrow> int \<Rightarrow> string \<Rightarrow> bool \<times> limits disk" where
  "is_rate_limited now0 now d uid action =
     (case is_user_blocked now0 d uid of
        (True, d0) \<Rightarrow> (True, d0)
      | (False, d0) \<Rightarrow>
          (case read_data Map.empty d0 of
             Inl e \<Rightarrow> (False, d0)
           | Inr (data, d1) \<Rightarrow>
               (let ud = get_user data uid in
                case actions ud action of
                  None \<Rightarrow> (False, d1)
                | Some ad \<Rightarrow>
                    if used ad = None \<and> reset_time ad = None then (False, d1)
                    else
                      let limit_config = get_limit_config ud action;
                          rt = (case reset_time ad of None \<Rightarrow> y2000 | Some t \<Rightarrow> t)
                      in if now \<ge> rt then (False, d1)
                         else
                           let used_requests = (case used ad of None \<Rightarrow> 0 | Some n \<Rightarrow> n);
                               max_requests = requests limit_config
                           in (used_requests \<ge> max_requests, d1))))"

record rate_limit_info =
  ri_remaining :: int
  ri_reset_time :: datetime
  ri_total_limit :: int
  ri_used :: int
  ri_period_seconds :: int

definition get_rate_limit_info ::
  "datetime \<Rightarrow> limits disk \<Rightarrow> int \<Rightarrow> string \<Rightarrow> rate_limit_info \<times> limits disk" where
  "get_rate_limit_info now d uid action =
     (case read_data Map.empty d of
        Inl e \<Rightarrow>
          (\<lparr>ri_remaining = 0, ri_reset_time = now, ri_total_limit = 0, ri_used = 0,
            ri_period_seconds = 60\<rparr>, d)
      | Inr (data, d1) \<Rightarrow>
          (let ud = get_user data uid;
               ad = (case actions ud action of
                       None \<Rightarrow> \<lparr>used = None, reset_time = None\<rparr> | Some a \<Rightarrow> a);
               limit_config = get_limit_config ud action;
               rt = (case reset_time ad of None \<Rightarrow> now | Some t \<Rightarrow> t);
               used_requests = (case used ad of None \<Rightarrow> 0 | Some n \<Rightarrow> n);
               total_limit = requests limit_config;
               expired = (now \<ge> rt);
               used_requests' = (if expired then 0 else used_requests);
               rt' = (if expired then now + seconds (period_seconds limit_config) else rt);
               remaining = max 0 (total_limit - used_requests')
           in (\<lparr>ri_remaining = remaining, ri_reset_time = rt', ri_total_limit = total_limit,
                ri_used = used_requests', ri_period_seconds = period_seconds limit_config\<rparr>, d1)))"

definition increment_usage ::
  "datetime \<Rightarrow> limits disk \<Rightarrow> int \<Rightarrow> string \<Rightarrow> bool \<times> limits disk" where
  "increment_usage now d uid action =
     (case read_data Map.empty d of
        Inl e \<Rightarrow> (False, d)
      | Inr (data, d1) \<Rightarrow>
          (let ud = get_user data uid;
               limit_config = get_limit_config ud action;
               fresh = \<lparr>used = Some 0,
                        reset_time = Some (now + seconds (period_seconds limit_config))\<rparr>;
               ad = (case actions ud action of None \<Rightarrow> fresh | Some a \<Rightarrow> a)
           in case reset_time ad of
                None \<Rightarrow> (False, d1)
              | Some rt \<Rightarrow>
                  (let ad1 = (if now \<ge> rt
                              then ad\<lparr>used := Some 0,
                                      reset_time :=
                                        Some (now + seconds (period_seconds limit_config))\<rparr>
                              else ad)
                   in case used ad1 of
                        None \<Rightarrow> (False, d1)
                      | Some n \<Rightarrow>
                          (let ad2 = ad1\<lparr>used := Some (n + 1)\<rparr>;
                               ud' = ud\<lparr>actions := (actions ud)(action \<mapsto> ad2)\<rparr>
                           in case write_data d1 (data(uid \<mapsto> ud')) of
                                Inl e \<Rightarrow> (False, d1)
                              | Inr d2 \<Rightarrow> (True, d2)))))"

definition reset_user_limits :: "limits disk \<Rightarrow> int \<Rightarrow> bool \<times> limits disk" where
  "reset_user_limits d uid =
     (case read_data Map.empty d of
        Inl e \<Rightarrow> (False, d)
      | Inr (data, d1) \<Rightarrow>
          (case data uid of
             None \<Rightarrow> (True, d1)
           | Some ud \<Rightarrow>
               (let custom = (case custom_limits ud of None \<Rightarrow> Map.empty | Some c \<Rightarrow> c);
                    ud' = \<lparr>actions = Map.empty, custom_limits = Some custom,
                           blocked_until = blocked_until ud\<rparr>
                in case write_data d1 (data(uid \<mapsto> ud')) of
                     Inl e \<Rightarrow> (False, d1)
                   | Inr d2 \<Rightarrow> (True, d2))))"

definition unblock_user :: "limits disk \<Rightarrow> int \<Rightarrow> bool \<times> limits disk" where
  "unblock_user d uid =
     (case read_data Map.empty d of
        Inl e \<Rightarrow> (False, d)
      | Inr (data, d1) \<Rightarrow>
          (case data uid of
             None \<Rightarrow> (True, d1)
           | Some ud \<Rightarrow>
               (case blocked_until ud of
                  None \<Rightarrow> (True, d1)
                | Some b \<Rightarrow>
                    (case write_data d1 (data(uid \<mapsto> ud\<lparr>blocked_until := None\<rparr>)) of
                       Inl e \<Rightarrow> (False, d1)
                     | Inr d2 \<Rightarrow> (True, d2)))))"

definition block_user :: "datetime \<Rightarrow> limits disk \<Rightarrow> int \<Rightarrow> int option \<Rightarrow> bool \<times> limits disk" where
  "block_user now d uid duration_hours =
     (case read_data Map.empty d of
        Inl e \<Rightarrow> (False, d)
      | Inr (data, d1) \<Rightarrow>
          (let ud = get_user data uid;
               mark = (case duration_hours of
                         None \<Rightarrow> Permanent
                       | Some h \<Rightarrow> Until (now + seconds (h * 3600)))
           in case write_data d1 (data(uid \<mapsto> ud\<lparr>blocked_until := Some mark\<rparr>)) of
                Inl e \<Rightarrow> (False, d1)
              | Inr d2 \<Rightarrow> (True, d2)))"

text \<open>A run of \<open>increment_usage\<close> calls for one user and action, one per clock reading.\<close>

definition increments :: "limits disk \<Rightarrow> int \<Rightarrow> string \<Rightarrow> datetime list \<Rightarrow> limits disk" where
  "increments d uid action ts = foldl (\<lambda>d' t. snd (increment_usage t d' uid action)) d ts"

definition fresh_limits_disk :: "limits disk" where
  "fresh_limits_disk = \<lparr>content = Some Map.empty, readable = True, writable = True, writes = 0\<rparr>"



text \<open>
  The store after \<open>n\<close> counted downloads of one user whose window closes at \<open>rt\<close>, and
  a store in which user 7 has been blocked for good.
\<close>

definition counted :: "limits \<Rightarrow> int \<Rightarrow> int \<Rightarrow> datetime \<Rightarrow> limits" where
  "counted data uid n rt =
     data(uid \<mapsto> \<lparr>actions = [''download'' \<mapsto> \<lparr>used = Some n, reset_time = Some rt\<rparr>],
                   custom_limits = None, blocked_until = None\<rparr>)"


definition blocked_limits_disk :: "limits disk" where
  "blocked_limits_disk = snd (block_user 0 fresh_limits_disk 7 None)"



section \<open>The translation service (json\_translation\_service.py)\<close>

text \<open>
  A dictionary is a parsed JSON object: its members in file order, with distinct
  keys. The service keeps, per language code, the file under the locales directory
  (\<open>None\<close> when it is missing or does not parse, the two cases in which
  \<^verbatim>\<open>_load_language\<close> gives up) and the in-memory cache \<^verbatim>\<open>_translations\<close>.
  \<^verbatim>\<open>str.format\<close> is a parameter \<open>fmt\<close>; it may raise.
\<close>

type_synonym dictionary = "(string \<times> string) list"

record translation_service =
  locale_files :: "string \<rightharpoonup> dictionary"
  cache :: "string \<rightharpoonup> dictionary"

definition SUPPORTED_LANGUAGES :: "string list" where
  "SUPPORTED_LANGUAGES = [''en'', ''ru'', ''uz'']"

definition DEFAULT_LANGUAGE :: string where
  "DEFAULT_LANGUAGE = ''en''"

definition load_language :: "translation_service \<Rightarrow> string \<Rightarrow> bool \<times> translation_service" where
  "load_language st language =
     (case locale_files st language of
        None \<Rightarrow> (False, st)
      | Some dict \<Rightarrow> (True, st\<lparr>cache := (cache st)(language \<mapsto> dict)\<rparr>))"

definition ensure_loaded :: "translation_service \<Rightarrow> string \<Rightarrow> translation_service" where
  \<comment> \<open>\<^verbatim>\<open>if language not in self._translations: await self._load_language(language)\<close>\<close>
  "ensure_loaded st language =
     (if cache st language = None then snd (load_language st language) else st)"

definition cached :: "translation_service \<Rightarrow> string \<Rightarrow> dictionary" where
  \<comment> \<open>\<^verbatim>\<open>self._translations.get(language, {})\<close>\<close>
  "cached st language = (case cache st language of None \<Rightarrow> [] | Some dict \<Rightarrow> dict)"

definition apply_format ::
  "(string \<Rightarrow> (string \<times> string) list \<Rightarrow> exn + string) \<Rightarrow> string \<Rightarrow> (string \<times> string) list
     \<Rightarrow> string" where
  "apply_format fmt t kwargs =
     (if kwargs \<noteq> [] then (case fmt t kwargs of Inl e \<Rightarrow> t | Inr t' \<Rightarrow> t') else t)"

definition get_text ::
  "(string \<Rightarrow> (string \<times> string) list \<Rightarrow> exn + string) \<Rightarrow> translation_service \<Rightarrow> string
     \<Rightarrow> string \<Rightarrow> (string \<times> string) list \<Rightarrow> string \<times> translation_service" where
  "get_text fmt st key language0 kwargs =
     (let language = (if language0 \<notin> set SUPPORTED_LANGUAGES then DEFAULT_LANGUAGE
                      else language0);
          st1 = ensure_loaded st language;
          t1 = map_of (cached st1 language) key;
          (t2, st2) =
            (if t1 = None \<and> language \<noteq> ''en''
             then (let st' = ensure_loaded st1 ''en'' in (map_of (cached st' ''en'') key, st'))
             else (t1, st1));
          t3 = (case t2 of None \<Rightarrow> key | Some t \<Rightarrow> t)
      in (apply_format fmt t3 kwargs, st2))"

text \<open>
  \<open>get_missing_translations\<close>: the loop over the supported languages. The keys a
  language lacks are listed in the order of the reference dictionary (Python lists a
  set, whose order is not fixed).
\<close>

fun missing_loop ::
  "string \<Rightarrow> string list \<Rightarrow> translation_service \<Rightarrow> string list
     \<Rightarrow> (string \<times> string list) list \<times> translation_service" where
  "missing_loop reference_language reference_keys st [] = ([], st)"
| "missing_loop reference_language reference_keys st (language # rest) =
     (if language = reference_language
      then missing_loop reference_language reference_keys st rest
      else
        let st1 = ensure_loaded st language;
            language_keys = map fst (cached st1 language);
            missing_keys = remdups (filter (\<lambda>k. k \<notin> set language_keys) reference_keys);
            (missing, st2) = missing_loop reference_language reference_keys st1 rest
        in if missing_keys \<noteq> [] then ((language, missing_keys) # missing, st2)
           else (missing, st2))"

definition get_missing_translations ::
  "translation_service \<Rightarrow> string \<Rightarrow> (string \<times> string list) list \<times> translation_service" where
  "get_missing_translations st reference_language =
     (let st1 = ensure_loaded st reference_language;
          reference_keys = map fst (cached st1 reference_language)
      in missing_loop reference_language reference_keys st1 SUPPORTED_LANGUAGES)"

text \<open>
  The dictionary the service works with for a language: the cached one when the
  language has been loaded, the file's otherwise, the empty one when neither exists.
\<close>

definition dictionary_of :: "translation_service \<Rightarrow> string \<Rightarrow> dictionary" where
  "dictionary_of st language =
     (case cache st language of
        Some dict \<Rightarrow> dict
      | None \<Rightarrow> (case locale_files st language of None \<Rightarrow> [] | Some dict \<Rightarrow> dict))"

definition sample_locales :: translation_service where
  "sample_locales =
     \<lparr>locale_files = [''en'' \<mapsto> [(''start'', ''Welcome''), (''help'', ''How to use'')],
               ''ru'' \<mapsto> [(''start'', ''Privet'')],
               ''uz'' \<mapsto> [(''start'', ''Xush kelibsiz'')]],
      cache = Map.empty\<rparr>"

definition no_format :: "string \<Rightarrow> (string \<times> string) list \<Rightarrow> exn + string" where
  "no_format t kwargs = Inl (KeyError ''missing'')"



text \<open>The keys of the reference that a language lacks, each once.\<close>

definition missing_keys :: "translation_service \<Rightarrow> string list \<Rightarrow> string \<Rightarrow> string list" where
  "missing_keys st reference_keys l =
     remdups (filter (\<lambda>k. k \<notin> set (map fst (dictionary_of st l))) reference_keys)"



section \<open>The download use case (download\_media\_use\_case.py)\<close>

record user =
  u_id :: int
  u_username :: "string option"
  u_first_name :: "string option"
  u_last_name :: "string option"
  u_language :: string
  u_is_premium :: bool
  u_created_at :: "datetime option"
  u_last_active :: "datetime option"
  u_download_count :: int
  u_is_banned :: bool


text \<open>
  The use case is handed its collaborators at construction. Each method it calls on
  one of them is a parameter: given the arguments, the call returns a value or raises.
  The platform hint is typed as the entity's platform field.
\<close>

record ports =
  p_get_by_id :: "int \<Rightarrow> exn + user option"
  p_is_rate_limited :: "int \<Rightarrow> string \<Rightarrow> exn + bool"
  p_get_reset_time :: "int \<Rightarrow> string \<Rightarrow> exn + string"
  p_get_translation :: "string \<Rightarrow> string \<Rightarrow> exn + string"
  p_send_error_message :: "int \<Rightarrow> string \<Rightarrow> exn + unit"
  p_validate_url :: "string \<Rightarrow> platform option \<Rightarrow> exn + bool"
  p_create_request :: "download_request \<Rightarrow> exn + download_request"
  p_update_request :: "download_request \<Rightarrow> exn + unit"
  p_send_progress_message :: "int \<Rightarrow> string \<Rightarrow> exn + unit"
  p_download_media :: "string \<Rightarrow> platform option \<Rightarrow> exn + string list"
  p_send_success_message :: "int \<Rightarrow> nat \<Rightarrow> exn + unit"
  p_update_user :: "user \<Rightarrow> exn + unit"
  p_increment_usage :: "int \<Rightarrow> string \<Rightarrow> exn + bool"
  p_create_analytics :: "analytics \<Rightarrow> exn + analytics"

text \<open>
  The use case also calls three methods on the request it has created and builds
  Analytics records with the keyword \<^verbatim>\<open>action\<close>. These calls are a parameter as well:
  \<open>new_analytics\<close> takes the id, the user id, the platform, the success flag, the
  error message and the processing time.
\<close>

record entity_methods =
  mark_as_processing :: "download_request \<Rightarrow> exn + download_request"
  mark_as_completed :: "download_request \<Rightarrow> string list \<Rightarrow> exn + download_request"
  mark_as_failed :: "download_request \<Rightarrow> string \<Rightarrow> exn + download_request"
  new_analytics ::
    "string \<Rightarrow> int \<Rightarrow> platform option \<Rightarrow> bool \<Rightarrow> string option \<Rightarrow> real \<Rightarrow> exn + analytics"


text \<open>
  What a run leaves behind: the successful calls that persist something, in order.
  A persisting call that raises is taken to have stored nothing.
\<close>

datatype event =
    RequestCreated download_request
  | RequestUpdated download_request
  | UserUpdated user
  | UsageIncremented int string
  | AnalyticsCreated analytics


fun is_analytics_created :: "event \<Rightarrow> bool" where
  "is_analytics_created (AnalyticsCreated a) = True"
| "is_analytics_created ev = False"

text \<open>
  Inside the try block the state is the local variable \<open>request\<close> and the events so
  far. A step returns a value or raises, and leaves a state either way.
\<close>

record frame =
  fr_request :: download_request
  fr_log :: "event list"

type_synonym 'a act = "frame \<Rightarrow> (exn + 'a) \<times> frame"


definition raise :: "exn \<Rightarrow> 'a act" where
  "raise e = (\<lambda>s. (Inl e, s))"

definition then_do :: "'a act \<Rightarrow> ('a \<Rightarrow> 'b act) \<Rightarrow> 'b act" where
  "then_do m k = (\<lambda>s. case m s of (Inl e, s') \<Rightarrow> (Inl e, s') | (Inr x, s') \<Rightarrow> k x s')"

definition next_do :: "'a act \<Rightarrow> 'b act \<Rightarrow> 'b act" where
  "next_do m k = then_do m (\<lambda>x. k)"


definition call :: "exn + 'a \<Rightarrow> 'a act" where
  \<comment> \<open>a call that stores nothing\<close>
  "call outcome = (\<lambda>s. (outcome, s))"

definition persist :: "exn + 'a \<Rightarrow> event \<Rightarrow> 'a act" where
  \<comment> \<open>a call that stores something when it returns\<close>
  "persist outcome ev =
     (\<lambda>s. case outcome of
            Inl e \<Rightarrow> (Inl e, s)
          | Inr x \<Rightarrow> (Inr x, s\<lparr>fr_log := fr_log s @ [ev]\<rparr>))"

definition mutate :: "(download_request \<Rightarrow> exn + download_request) \<Rightarrow> unit act" where
  \<comment> \<open>a method call that changes \<open>request\<close> in place\<close>
  "mutate f =
     (\<lambda>s. case f (fr_request s) of
            Inl e \<Rightarrow> (Inl e, s)
          | Inr r \<Rightarrow> (Inr (), s\<lparr>fr_request := r\<rparr>))"

definition update_current :: "ports \<Rightarrow> unit act" where
  \<comment> \<open>\<^verbatim>\<open>await self.download_request_repository.update(request)\<close>\<close>
  "update_current p =
     (\<lambda>s. persist (p_update_request p (fr_request s)) (RequestUpdated (fr_request s)) s)"

text \<open>The clock readings of one run, in the order they are taken.\<close>

record readings =
  at_start :: datetime
  at_create :: datetime
  at_activity :: datetime
  at_end :: datetime




definition handler ::
  "entity_methods \<Rightarrow> ports \<Rightarrow> readings \<Rightarrow> string \<Rightarrow> user \<Rightarrow> int \<Rightarrow> platform option \<Rightarrow> exn
     \<Rightarrow> unit act" where
  "handler m p c aid usr uid hint e =
     next_do (mutate (\<lambda>r. mark_as_failed m r (str_of e)))
    (next_do (update_current p)
    (then_do (call (p_get_translation p (u_language usr) ''download_failed'')) (\<lambda>error_message.
     next_do (call (p_send_error_message p uid error_message))
    (then_do (call (new_analytics m aid uid hint False (Some (str_of e))
                      (total_seconds (at_end c - at_start c)))) (\<lambda>a.
     next_do (persist (p_create_analytics p a) (AnalyticsCreated a))
    (raise e))))))"






















section \<open>Properties of the DownloadRequest entity\<close>

text \<open>
  Claim C4. \<open>increment_retry\<close> changes a request only when its status is failed and
  \<open>retry_count < max_retries\<close>: then the status becomes pending, the error message and
  both the start and the completion stamp are cleared, the retry count grows by exactly
  one and nothing else changes. In every other case (retry count already at the
  maximum, or a status other than failed) the request is returned as it was, so its
  status is unchanged.
\<close>

theorem increment_retry_spec:
  "(status r = FAILED \<and> retry_count r < max_retries r \<longrightarrow>
      increment_retry r =
        r\<lparr>retry_count := retry_count r + 1, status := PENDING, error_message := None,
          started_at := None, completed_at := None\<rparr>)
   \<and> (\<not> (status r = FAILED \<and> retry_count r < max_retries r) \<longrightarrow> increment_retry r = r)"
  by (auto simp: increment_retry_def can_retry_def)

lemma sample_failed_fields:
  "status sample_failed = FAILED" "retry_count sample_failed = 0"
  "max_retries sample_failed = 3"
  by (simp_all add: sample_failed_def sample_request_def DownloadRequest_def post_init_def
      fail_def start_processing_def Let_def)

theorem increment_retry_spec_witness:
  "status sample_failed = FAILED \<and> retry_count sample_failed < max_retries sample_failed
   \<and> increment_retry sample_failed =
        sample_failed\<lparr>retry_count := retry_count sample_failed + 1, status := PENDING,
          error_message := None, started_at := None, completed_at := None\<rparr>
   \<and> status (increment_retry sample_request) = PENDING
   \<and> increment_retry sample_request = sample_request"
proof -
  have a: "status sample_failed = FAILED \<and> retry_count sample_failed < max_retries sample_failed"
    by (simp add: sample_failed_fields)
  have b: "\<not> (status sample_request = FAILED \<and> retry_count sample_request < max_retries sample_request)"
    by (simp add: sample_request_def DownloadRequest_def post_init_def Let_def)
  from a b increment_retry_spec [of sample_failed] increment_retry_spec [of sample_request]
  show ?thesis
    by (simp add: sample_request_def DownloadRequest_def post_init_def Let_def)
qed

text \<open>
  Claim C6, as stated: on every request reached by any sequence of
  \<open>start_processing\<close>, \<open>complete_successfully\<close>, \<open>fail\<close>, \<open>cancel\<close> and
  \<open>increment_retry\<close>, a processing time that is set equals \<open>completed_at - started_at\<close>
  in seconds. It fails: the operations are unconditional setters, so a request that
  has been started and completed can be started again, which moves the start stamp
  and keeps the processing time of the finished attempt. Started at 1 s, completed at
  3 s and started again at 5 s, the request has processing time 2 s while
  \<open>completed_at - started_at\<close> is -2 s.
\<close>

theorem duration_after_restart_counterexample:
  "processing_time (run_ops sample_request
      [StartProcessing 1000000, CompleteSuccessfully 3000000 [''a.jpg''] None,
       StartProcessing 5000000]) = Some 2
   \<and> started_at (run_ops sample_request
      [StartProcessing 1000000, CompleteSuccessfully 3000000 [''a.jpg''] None,
       StartProcessing 5000000]) = Some 5000000
   \<and> completed_at (run_ops sample_request
      [StartProcessing 1000000, CompleteSuccessfully 3000000 [''a.jpg''] None,
       StartProcessing 5000000]) = Some 3000000
   \<and> total_seconds (3000000 - 5000000) = - 2
   \<and> \<not> duration_consistent (run_ops sample_request
      [StartProcessing 1000000, CompleteSuccessfully 3000000 [''a.jpg''] None,
       StartProcessing 5000000])"
  by (simp add: run_ops_def sample_request_def DownloadRequest_def post_init_def
      start_processing_def complete_successfully_def
      duration_consistent_def total_seconds_def Let_def)

lemma finish_keeps_consistent:
  assumes "duration_consistent r"
  shows "duration_consistent (complete_successfully now files tsize r)"
    and "duration_consistent (fail now msg r)"
    and "duration_consistent (cancel now r)"
  using assms
  by (auto simp: duration_consistent_def complete_successfully_def fail_def cancel_def Let_def
      split: option.splits)

lemma start_keeps_consistent:
  "processing_time r = None \<Longrightarrow> duration_consistent (start_processing now r)"
  by (simp add: duration_consistent_def start_processing_def)

lemma retry_keeps_consistent:
  "duration_consistent r \<Longrightarrow> \<not> can_retry r \<or> processing_time r = None \<Longrightarrow>
   duration_consistent (increment_retry r)"
  by (auto simp: duration_consistent_def increment_retry_def)

lemma well_timed_invariant:
  "duration_consistent r \<Longrightarrow> well_timed r ops \<Longrightarrow> duration_consistent (foldl apply_op r ops)"
proof (induction ops arbitrary: r)
  case Nil
  then show ?case by simp
next
  case (Cons x ops)
  have step: "duration_consistent (apply_op r x) \<and> well_timed (apply_op r x) ops"
  proof (cases x)
    case (StartProcessing now)
    with Cons.prems show ?thesis by (simp add: start_keeps_consistent)
  next
    case (CompleteSuccessfully now files tsize)
    with Cons.prems show ?thesis by (simp add: finish_keeps_consistent)
  next
    case (Fail now msg)
    with Cons.prems show ?thesis by (simp add: finish_keeps_consistent)
  next
    case (Cancel now)
    with Cons.prems show ?thesis by (simp add: finish_keeps_consistent)
  next
    case IncrementRetry
    with Cons.prems show ?thesis by (simp add: retry_keeps_consistent)
  qed
  then have "duration_consistent (foldl apply_op (apply_op r x) ops)"
    using Cons.IH by blast
  then show ?case by simp
qed

lemma pending_untimed:
  "(status r = PENDING \<longrightarrow> processing_time r = None) \<Longrightarrow> well_timed r ops \<Longrightarrow>
   status (foldl apply_op r ops) = PENDING \<longrightarrow> processing_time (foldl apply_op r ops) = None"
proof (induction ops arbitrary: r)
  case Nil
  then show ?case by simp
next
  case (Cons x ops)
  have step: "(status (apply_op r x) = PENDING \<longrightarrow> processing_time (apply_op r x) = None)
      \<and> well_timed (apply_op r x) ops"
  proof (cases x)
    case (StartProcessing now)
    with Cons.prems show ?thesis by (simp add: start_processing_def)
  next
    case (CompleteSuccessfully now files tsize)
    with Cons.prems show ?thesis
      by (simp add: complete_successfully_def Let_def split: option.splits)
  next
    case (Fail now msg)
    with Cons.prems show ?thesis by (simp add: fail_def Let_def split: option.splits)
  next
    case (Cancel now)
    with Cons.prems show ?thesis by (simp add: cancel_def Let_def split: option.splits)
  next
    case IncrementRetry
    with Cons.prems show ?thesis by (auto simp: increment_retry_def)
  qed
  then show ?case using Cons.IH [of "apply_op r x"] by simp
qed

text \<open>
  Claim C6, amended. On every request reached from one whose processing time is unset
  (a newly constructed request is one) by a sequence of \<open>start_processing\<close>,
  \<open>complete_successfully\<close>, \<open>fail\<close>, \<open>cancel\<close> and \<open>increment_retry\<close> in which
  processing is started only while no processing time is recorded, and a retry takes
  effect only while no processing time is recorded (a retry that changes nothing is
  always allowed), a processing time that is set equals \<open>completed_at - started_at\<close> in
  seconds, and both stamps are set. On such a request a pending status goes with an
  unset processing time, so the lifecycle pending, processing, finished is among these
  sequences.
\<close>

theorem duration_consistent_when_well_timed:
  "processing_time r = None \<Longrightarrow> well_timed r ops \<Longrightarrow>
     duration_consistent (run_ops r ops)
     \<and> (status (run_ops r ops) = PENDING \<longrightarrow> processing_time (run_ops r ops) = None)"
  unfolding run_ops_def
  using well_timed_invariant [of r ops] pending_untimed [of r ops]
  by (simp add: duration_consistent_def)

theorem duration_consistent_when_well_timed_witness:
  "processing_time sample_request = None
   \<and> well_timed sample_request
        [Fail 500000 ''early'', IncrementRetry, StartProcessing 1000000, Fail 3000000 ''boom'',
         Cancel 4000000, IncrementRetry]
   \<and> duration_consistent (run_ops sample_request
        [Fail 500000 ''early'', IncrementRetry, StartProcessing 1000000, Fail 3000000 ''boom'',
         Cancel 4000000, IncrementRetry])
   \<and> retry_count (run_ops sample_request [Fail 500000 ''early'', IncrementRetry]) = 1
   \<and> processing_time (run_ops sample_request
        [Fail 500000 ''early'', IncrementRetry, StartProcessing 1000000, Fail 3000000 ''boom''])
       = Some 2"
proof -
  have a: "processing_time sample_request = None"
    by (simp add: sample_request_def DownloadRequest_def post_init_def Let_def)
  have b: "well_timed sample_request
        [Fail 500000 ''early'', IncrementRetry, StartProcessing 1000000, Fail 3000000 ''boom'',
         Cancel 4000000, IncrementRetry]"
    by (simp add: sample_request_def DownloadRequest_def post_init_def Let_def
        fail_def cancel_def start_processing_def increment_retry_def can_retry_def)
  have c: "retry_count (run_ops sample_request [Fail 500000 ''early'', IncrementRetry]) = 1"
    by (simp add: run_ops_def sample_request_def DownloadRequest_def post_init_def Let_def
        fail_def increment_retry_def can_retry_def)
  have d: "processing_time (run_ops sample_request
        [Fail 500000 ''early'', IncrementRetry, StartProcessing 1000000, Fail 3000000 ''boom''])
       = Some 2"
    by (simp add: run_ops_def sample_request_def DownloadRequest_def post_init_def Let_def
        fail_def start_processing_def increment_retry_def can_retry_def total_seconds_def)
  from duration_consistent_when_well_timed [OF a b] a b c d show ?thesis by simp
qed


section \<open>Properties of URL routing\<close>

lemma str_in_iff: "str_in sub s \<longleftrightarrow> (\<exists>p q. s = p @ sub @ q)"
proof (induction s)
  case Nil
  then show ?case by auto
next
  case (Cons c cs)
  show ?case
  proof
    assume "str_in sub (c # cs)"
    then consider "prefix sub (c # cs)" | "str_in sub cs" by auto
    then show "\<exists>p q. c # cs = p @ sub @ q"
    proof cases
      case 1
      then obtain q where "c # cs = sub @ q" by (auto simp: prefix_def)
      then have "c # cs = [] @ sub @ q" by simp
      then show ?thesis by blast
    next
      case 2
      with Cons.IH obtain p q where "cs = p @ sub @ q" by blast
      then have "c # cs = (c # p) @ sub @ q" by simp
      then show ?thesis by blast
    qed
  next
    assume "\<exists>p q. c # cs = p @ sub @ q"
    then obtain p q where pq: "c # cs = p @ sub @ q" by blast
    show "str_in sub (c # cs)"
    proof (cases p)
      case Nil
      with pq have "prefix sub (c # cs)" by (simp add: prefix_def)
      then show ?thesis by simp
    next
      case (Cons a p')
      with pq have "cs = p' @ sub @ q" by simp
      with Cons.IH show ?thesis by auto
    qed
  qed
qed

lemma str_in_append: "str_in sub w \<Longrightarrow> str_in sub (a @ w @ b)"
proof -
  assume "str_in sub w"
  then obtain p q where "w = p @ sub @ q" by (auto simp: str_in_iff)
  then have "a @ w @ b = (a @ p) @ sub @ (q @ b)" by simp
  then show ?thesis unfolding str_in_iff by blast
qed

lemma rests_consumes: "t \<in> set (rests r s) \<Longrightarrow> \<exists>w. s = w @ t"
proof (induction r arbitrary: s t)
  case (Lit l)
  then show ?case by (auto simp: prefix_def split: if_splits)
next
  case (Opt r)
  then show ?case by auto
next
  case (Alt a b)
  then show ?case by auto
next
  case (Plus p)
  then obtain k where "t = drop k s" by auto
  then have "s = take k s @ t" by simp
  then show ?case by blast
next
  case (Seq a b)
  then obtain m where m: "m \<in> set (rests a s)" and t: "t \<in> set (rests b m)" by auto
  from Seq.IH(1) [OF m] obtain w1 where "s = w1 @ m" by blast
  moreover from Seq.IH(2) [OF t] obtain w2 where "m = w2 @ t" by blast
  ultimately have "s = (w1 @ w2) @ t" by simp
  then show ?case by blast
qed

lemma rests_must_contain:
  "must_contain sub r \<Longrightarrow> t \<in> set (rests r s) \<Longrightarrow> \<exists>w. s = w @ t \<and> str_in sub w"
proof (induction r arbitrary: s t)
  case (Lit l)
  then show ?case by (auto simp: prefix_def split: if_splits)
next
  case (Opt r)
  then show ?case by simp
next
  case (Alt a b)
  then show ?case by auto
next
  case (Plus p)
  then show ?case by simp
next
  case (Seq a b)
  from Seq.prems(2) obtain m where m: "m \<in> set (rests a s)" and t: "t \<in> set (rests b m)" by auto
  from rests_consumes [OF m] obtain w1 where w1: "s = w1 @ m" by blast
  from rests_consumes [OF t] obtain w2 where w2: "m = w2 @ t" by blast
  from Seq.prems(1) consider "must_contain sub a" | "must_contain sub b" by auto
  then show ?case
  proof cases
    case 1
    from Seq.IH(1) [OF 1 m] obtain v where v: "s = v @ m" "str_in sub v" by blast
    with w1 have "v = w1" by simp
    with v have "str_in sub ([] @ w1 @ w2)" using str_in_append by blast
    with w1 w2 show ?thesis by auto
  next
    case 2
    from Seq.IH(2) [OF 2 t] obtain v where v: "m = v @ t" "str_in sub v" by blast
    with w2 have "v = w2" by simp
    with v have "str_in sub (w1 @ w2 @ [])" using str_in_append by blast
    with w1 w2 show ?thesis by auto
  qed
qed

lemma re_match_must_contain:
  assumes "must_contain sub r" and "re_match r s"
  shows "str_in sub s"
proof -
  from assms(2) obtain t ts where "rests r s = t # ts"
    by (cases "rests r s") (simp_all add: re_match_def)
  then have "t \<in> set (rests r s)" by simp
  from rests_must_contain [OF assms(1) this] obtain w where "s = w @ t" "str_in sub w" by blast
  then have "str_in sub ([] @ w @ t)" using str_in_append by blast
  with \<open>s = w @ t\<close> show ?thesis by simp
qed

lemma instagram_can_handle_substring:
  assumes "instagram_can_handle T u"
  shows "str_in ''instagram.com'' u \<or> str_in ''instagr.am'' u"
proof -
  from assms obtain r where r: "r \<in> set (instagram_patterns T)" "re_match r u"
    by (auto simp: instagram_can_handle_def list_ex_iff)
  have "\<forall>r \<in> set (instagram_patterns T). must_contain ''instagram.com'' r \<or> must_contain ''instagr.am'' r"
    by (simp add: instagram_patterns_def https_def)
  with r re_match_must_contain show ?thesis by blast
qed

lemma tiktok_can_handle_substring:
  assumes "tiktok_can_handle T u"
  shows "str_in ''tiktok.com'' u"
proof -
  from assms obtain r where r: "r \<in> set (tiktok_patterns T)" "re_match r u"
    by (auto simp: tiktok_can_handle_def list_ex_iff)
  have "\<forall>r \<in> set (tiktok_patterns T). must_contain ''tiktok.com'' r"
    by (simp add: tiktok_patterns_def https_def)
  with r re_match_must_contain show ?thesis by blast
qed

lemma platform_of_new_request:
  "platform (DownloadRequest now rid uid u None) = infer_platform u"
  by (cases u) (simp_all add: DownloadRequest_def post_init_def infer_platform_def Let_def)

lemma handler_cases:
  "map_option cls (get_handler (container_downloaders T info dl) u) =
     (if instagram_can_handle T u then Some ''InstagramDownloaderService''
      else if tiktok_can_handle T u then Some ''TikTokDownloaderService'' else None)"
  by (simp add: get_handler_def container_downloaders_def InstagramDownloaderService_def
      TikTokDownloaderService_def)


text \<open>
  Claim C3, as stated: for every URL, the platform inferred when a request is built
  without one is instagram exactly when the dispatcher resolves the Instagram adapter,
  and tiktok exactly when it resolves the TikTok adapter. It fails in both directions
  of disagreement: a profile URL is labelled instagram by the substring test although
  no adapter accepts it, and a TikTok link whose path mentions \<open>instagram.com\<close> is
  routed to the TikTok adapter but labelled instagram.
\<close>

theorem inference_vs_dispatch_counterexample:
  "platform (DownloadRequest 0 ''req-2'' 7 ''https://www.instagram.com/someuser/'' None)
     = Some INSTAGRAM
   \<and> get_handler wired ''https://www.instagram.com/someuser/'' = None
   \<and> platform (DownloadRequest 0 ''req-3'' 7 ''https://tiktok.com/instagram.com'' None)
     = Some INSTAGRAM
   \<and> map_option cls (get_handler wired ''https://tiktok.com/instagram.com'')
     = Some ''TikTokDownloaderService''"
  by (simp add: DownloadRequest_def post_init_def infer_platform_def Let_def wired_def
      handler_cases get_handler_def container_downloaders_def InstagramDownloaderService_def
      TikTokDownloaderService_def instagram_can_handle_def tiktok_can_handle_def
      instagram_patterns_def tiktok_patterns_def https_def re_match_def word_dot_dash_def
      is_word_def)

text \<open>
  Claim C3, amended. Inference agrees with the dispatcher in one direction only.
  Whenever the dispatcher resolves the Instagram adapter for a URL, a request built for
  that URL without a platform gets instagram. Whenever it resolves the TikTok adapter,
  the URL contains \<open>tiktok.com\<close> and the request gets tiktok, unless the URL also contains
  \<open>instagram.com\<close> or \<open>instagr.am\<close>, in which case it gets instagram. A URL for which
  no platform is inferred is resolved to no adapter. The converse does not hold: the
  substring test also labels URLs that no adapter accepts. This holds for every URL,
  ASCII or not, whatever the Unicode database says of the characters beyond ASCII.
\<close>

theorem dispatch_implies_inference:
  "(map_option cls (get_handler (container_downloaders T info dl) u) = Some ''InstagramDownloaderService''
      \<longrightarrow> platform (DownloadRequest now rid uid u None) = Some INSTAGRAM)
   \<and> (map_option cls (get_handler (container_downloaders T info dl) u) = Some ''TikTokDownloaderService''
      \<longrightarrow> str_in ''tiktok.com'' u \<and>
          platform (DownloadRequest now rid uid u None) =
            (if str_in ''instagram.com'' u \<or> str_in ''instagr.am'' u then Some INSTAGRAM
             else Some TIKTOK))
   \<and> (platform (DownloadRequest now rid uid u None) = None
      \<longrightarrow> get_handler (container_downloaders T info dl) u = None)"
proof (intro conjI impI)
  assume "map_option cls (get_handler (container_downloaders T info dl) u) = Some ''InstagramDownloaderService''"
  then have "instagram_can_handle T u" by (simp add: handler_cases split: if_splits)
  from instagram_can_handle_substring [OF this]
  show "platform (DownloadRequest now rid uid u None) = Some INSTAGRAM"
    by (simp add: platform_of_new_request infer_platform_def)
next
  assume "map_option cls (get_handler (container_downloaders T info dl) u) = Some ''TikTokDownloaderService''"
  then have "tiktok_can_handle T u" by (simp add: handler_cases split: if_splits)
  from tiktok_can_handle_substring [OF this]
  show "str_in ''tiktok.com'' u" .
  then show "platform (DownloadRequest now rid uid u None) =
            (if str_in ''instagram.com'' u \<or> str_in ''instagr.am'' u then Some INSTAGRAM
             else Some TIKTOK)"
    by (simp add: platform_of_new_request infer_platform_def)
next
  assume "platform (DownloadRequest now rid uid u None) = None"
  then have n: "\<not> str_in ''instagram.com'' u" "\<not> str_in ''instagr.am'' u" "\<not> str_in ''tiktok.com'' u"
    by (auto simp: platform_of_new_request infer_platform_def split: if_splits)
  then have "\<not> instagram_can_handle T u" "\<not> tiktok_can_handle T u"
    using instagram_can_handle_substring tiktok_can_handle_substring by blast+
  then have "map_option cls (get_handler (container_downloaders T info dl) u) = None"
    by (simp add: handler_cases)
  then show "get_handler (container_downloaders T info dl) u = None" by simp
qed


theorem dispatch_implies_inference_witness:
  "map_option cls (get_handler wired ''https://www.instagram.com/p/ABC123/'')
     = Some ''InstagramDownloaderService''
   \<and> platform (DownloadRequest 0 ''req-1'' 7 ''https://www.instagram.com/p/ABC123/'' None)
     = Some INSTAGRAM
   \<and> map_option cls (get_handler wired ''https://vm.tiktok.com/ZMabcd/'')
     = Some ''TikTokDownloaderService''
   \<and> platform (DownloadRequest 0 ''req-4'' 7 ''https://vm.tiktok.com/ZMabcd/'' None)
     = Some TIKTOK
   \<and> platform (DownloadRequest 0 ''req-5'' 7 ''https://example.com/video'' None) = None
   \<and> get_handler wired ''https://example.com/video'' = None
   \<and> map_option cls (get_handler wired (''https://www.instagram.com/p/'' @ [CHR 0xE9]))
     = Some ''InstagramDownloaderService''
   \<and> platform (DownloadRequest 0 ''req-6'' 7 (''https://www.instagram.com/p/'' @ [CHR 0xE9]) None)
     = Some INSTAGRAM"
proof -
  have e: "map_option cls (get_handler (container_downloaders latin1 offline_info offline_dl)
        (''https://www.instagram.com/p/'' @ [CHR 0xE9])) = Some ''InstagramDownloaderService''"
    by (simp add: handler_cases instagram_can_handle_def instagram_patterns_def
        https_def re_match_def word_dash_def is_word_def latin1_def)
  note t4 = dispatch_implies_inference [of latin1 offline_info offline_dl
      "''https://www.instagram.com/p/'' @ [CHR 0xE9]" 0 "''req-6''" 7]
  from t4 e have e': "platform (DownloadRequest 0 ''req-6'' 7
      (''https://www.instagram.com/p/'' @ [CHR 0xE9]) None) = Some INSTAGRAM" by blast
  have a: "map_option cls (get_handler (container_downloaders latin1 offline_info offline_dl)
        ''https://www.instagram.com/p/ABC123/'') = Some ''InstagramDownloaderService''"
    by (simp add: handler_cases instagram_can_handle_def instagram_patterns_def
        https_def re_match_def word_dash_def is_word_def)
  have b: "map_option cls (get_handler (container_downloaders latin1 offline_info offline_dl)
        ''https://vm.tiktok.com/ZMabcd/'') = Some ''TikTokDownloaderService''"
    by (simp add: handler_cases instagram_can_handle_def instagram_patterns_def
        tiktok_can_handle_def tiktok_patterns_def https_def re_match_def word_dot_dash_def
        is_word_def)
  have c: "platform (DownloadRequest 0 ''req-5'' 7 ''https://example.com/video'' None) = None"
    by (simp add: DownloadRequest_def post_init_def infer_platform_def Let_def)
  have d: "\<not> (str_in ''instagram.com'' ''https://vm.tiktok.com/ZMabcd/''
     \<or> str_in ''instagr.am'' ''https://vm.tiktok.com/ZMabcd/'')"
    by simp
  note t1 = dispatch_implies_inference [of latin1 offline_info offline_dl
      "''https://www.instagram.com/p/ABC123/''" 0 "''req-1''" 7]
  note t2 = dispatch_implies_inference [of latin1 offline_info offline_dl
      "''https://vm.tiktok.com/ZMabcd/''" 0 "''req-4''" 7]
  note t3 = dispatch_implies_inference [of latin1 offline_info offline_dl
      "''https://example.com/video''" 0 "''req-5''" 7]
  from t1 a have a': "platform (DownloadRequest 0 ''req-1'' 7 ''https://www.instagram.com/p/ABC123/'' None)
     = Some INSTAGRAM" by blast
  from t2 b have "platform (DownloadRequest 0 ''req-4'' 7 ''https://vm.tiktok.com/ZMabcd/'' None)
     = (if str_in ''instagram.com'' ''https://vm.tiktok.com/ZMabcd/''
             \<or> str_in ''instagr.am'' ''https://vm.tiktok.com/ZMabcd/'' then Some INSTAGRAM
             else Some TIKTOK)" by blast
  with d have b': "platform (DownloadRequest 0 ''req-4'' 7 ''https://vm.tiktok.com/ZMabcd/'' None)
     = Some TIKTOK" by (simp only: if_False)
  from t3 c have c': "get_handler (container_downloaders latin1 offline_info offline_dl)
      ''https://example.com/video'' = None" by blast
  from a a' b b' c c' e e' show ?thesis unfolding wired_def by blast
qed

text \<open>
  Claim C5, as stated: for a URL that no registered adapter recognises,
  \<open>can_handle\<close> is false and each of \<open>extract_media_info\<close>, \<open>download_media\<close>,
  \<open>get_media_metadata\<close> and \<open>validate_url\<close> fails with an UnsupportedUrl error. It
  fails for the last two: on \<open>https://example.com/video\<close>, which neither registered
  adapter recognises, \<open>validate_url\<close> returns false and \<open>get_media_metadata\<close> returns
  nothing, and neither raises.
\<close>

theorem composite_quiet_operations_counterexample:
  "\<not> instagram_can_handle latin1 ''https://example.com/video''
   \<and> \<not> tiktok_can_handle latin1 ''https://example.com/video''
   \<and> composite_validate_url wired ''https://example.com/video'' = Inr False
   \<and> composite_get_media_metadata wired ''https://example.com/video'' = Inr None"
  by (simp add: composite_validate_url_def composite_get_media_metadata_def wired_def
      get_handler_def container_downloaders_def InstagramDownloaderService_def
      TikTokDownloaderService_def instagram_can_handle_def tiktok_can_handle_def
      instagram_patterns_def tiktok_patterns_def https_def re_match_def)

lemma no_handler:
  "list_all (\<lambda>d. \<not> can_handle d u) downloaders \<Longrightarrow> get_handler downloaders u = None"
  by (simp add: get_handler_def find_None_iff list_all_iff)

text \<open>
  Claim C5, amended. For every URL that no registered adapter recognises, the
  composite's \<open>can_handle\<close> is false, \<open>extract_media_info\<close> and \<open>download_media\<close> fail
  with an UnsupportedUrl error that names the URL, \<open>get_media_metadata\<close> returns
  nothing and \<open>validate_url\<close> returns false, both without raising.
\<close>

theorem composite_unrecognised_url:
  "list_all (\<lambda>d. \<not> can_handle d u) downloaders \<Longrightarrow> url request = u \<Longrightarrow>
     composite_can_handle downloaders u = False
     \<and> composite_extract_media_info downloaders u
         = Inl (UnsupportedUrlError (''No handler found for URL: '' @ u))
     \<and> composite_download_media downloaders request
         = Inl (UnsupportedUrlError (''No handler found for URL: '' @ u))
     \<and> composite_get_media_metadata downloaders u = Inr None
     \<and> composite_validate_url downloaders u = Inr False"
  by (simp add: no_handler composite_extract_media_info_def composite_download_media_def
      composite_get_media_metadata_def composite_validate_url_def)
    (simp add: composite_can_handle_def list_ex_iff list_all_iff)

theorem composite_unrecognised_url_witness:
  "list_all (\<lambda>d. \<not> can_handle d ''https://example.com/video'') wired
   \<and> composite_can_handle wired ''https://example.com/video'' = False
   \<and> composite_extract_media_info wired ''https://example.com/video''
       = Inl (UnsupportedUrlError ''No handler found for URL: https://example.com/video'')
   \<and> composite_download_media wired
         (DownloadRequest 0 ''req-5'' 7 ''https://example.com/video'' None)
       = Inl (UnsupportedUrlError ''No handler found for URL: https://example.com/video'')
   \<and> composite_get_media_metadata wired ''https://example.com/video'' = Inr None
   \<and> composite_validate_url wired ''https://example.com/video'' = Inr False"
proof -
  have a: "list_all (\<lambda>d. \<not> can_handle d ''https://example.com/video'') wired"
    by (simp add: wired_def container_downloaders_def InstagramDownloaderService_def
        TikTokDownloaderService_def instagram_can_handle_def tiktok_can_handle_def
        instagram_patterns_def tiktok_patterns_def https_def re_match_def)
  have b: "url (DownloadRequest 0 ''req-5'' 7 ''https://example.com/video'' None)
      = ''https://example.com/video''"
    by (simp add: DownloadRequest_def post_init_def Let_def)
  from composite_unrecognised_url [OF a b] a show ?thesis by simp
qed


section \<open>Properties of the repositories\<close>

lemma analytics_save_result:
  "analytics_save d a = Inr (r, d') \<Longrightarrow>
     r = a \<and> readable d \<and> writable d \<and> content d' = Some (stored d @ [analytics_to_dict a])"
  by (auto simp: analytics_save_def read_data_def write_data_def stored_def
      split: if_splits option.splits sum.splits)

lemma analytics_save_total:
  "readable d \<Longrightarrow> writable d \<Longrightarrow> \<exists>d'. analytics_save d a = Inr (a, d')"
  by (auto simp: analytics_save_def read_data_def write_data_def split: option.splits)


text \<open>
  Claim C9. \<open>JsonAnalyticsRepository.save\<close> appends: whenever it returns, the stored
  array is the old one followed by one new row that carries the given record's id,
  user id, event type (as its string value), platform, media type, URL, file size,
  processing time, success flag, error message, metadata and creation time. This is so
  whether or not a row with the same id was there already: the number of rows with
  that id grows by one, the count grows by exactly one, and the rows stored before are
  unchanged, in place. It returns whenever the file can be read and written (a file
  that does not parse counts as an empty array and is reset).
\<close>

theorem analytics_save_appends:
  "(readable d \<and> writable d \<longrightarrow> (\<exists>d'. analytics_save d a = Inr (a, d')))
   \<and> (\<forall>r d'. analytics_save d a = Inr (r, d') \<longrightarrow>
         r = a
         \<and> stored d' = stored d @
              [\<lparr>ad_id = an_id a, ad_user_id = an_user_id a,
                ad_event_type = event_value (an_event_type a),
                ad_platform = an_platform a, ad_media_type = an_media_type a,
                ad_url = an_url a, ad_file_size = an_file_size a,
                ad_processing_time = an_processing_time a, ad_success = an_success a,
                ad_error_message = an_error_message a, ad_metadata = an_metadata a,
                ad_created_at = an_created_at a\<rparr>]
         \<and> length (stored d') = Suc (length (stored d))
         \<and> take (length (stored d)) (stored d') = stored d
         \<and> length (filter (\<lambda>x. ad_id x = an_id a) (stored d'))
             = Suc (length (filter (\<lambda>x. ad_id x = an_id a) (stored d))))
   \<and> map event_value
         [DOWNLOAD_START, DOWNLOAD_SUCCESS, DOWNLOAD_FAILED, USER_JOINED, USER_BANNED,
          COMMAND_USED, ERROR_OCCURRED]
       = [''download_start'', ''download_success'', ''download_failed'', ''user_joined'',
          ''user_banned'', ''command_used'', ''error_occurred'']"
proof (intro conjI impI allI)
  assume "readable d \<and> writable d"
  then show "\<exists>d'. analytics_save d a = Inr (a, d')" using analytics_save_total by blast
next
  fix r d' assume s: "analytics_save d a = Inr (r, d')"
  from analytics_save_result [OF s] show "r = a" by simp
  from analytics_save_result [OF s]
  have st: "stored d' = stored d @ [analytics_to_dict a]" by (simp add: stored_def)
  then show "stored d' = stored d @
              [\<lparr>ad_id = an_id a, ad_user_id = an_user_id a,
                ad_event_type = event_value (an_event_type a),
                ad_platform = an_platform a, ad_media_type = an_media_type a,
                ad_url = an_url a, ad_file_size = an_file_size a,
                ad_processing_time = an_processing_time a, ad_success = an_success a,
                ad_error_message = an_error_message a, ad_metadata = an_metadata a,
                ad_created_at = an_created_at a\<rparr>]"
    by (simp add: analytics_to_dict_def)
  from st show "length (stored d') = Suc (length (stored d))" by simp
  from st show "take (length (stored d)) (stored d') = stored d" by simp
  from st show "length (filter (\<lambda>x. ad_id x = an_id a) (stored d'))
             = Suc (length (filter (\<lambda>x. ad_id x = an_id a) (stored d)))"
    by (simp add: analytics_to_dict_def)
next
  show "map event_value
         [DOWNLOAD_START, DOWNLOAD_SUCCESS, DOWNLOAD_FAILED, USER_JOINED, USER_BANNED,
          COMMAND_USED, ERROR_OCCURRED]
       = [''download_start'', ''download_success'', ''download_failed'', ''user_joined'',
          ''user_banned'', ''command_used'', ''error_occurred'']" by simp
qed

theorem analytics_save_appends_witness:
  "readable \<lparr>content = Some [sample_row], readable = True, writable = True, writes = 0\<rparr>
   \<and> writable \<lparr>content = Some [sample_row], readable = True, writable = True, writes = 0\<rparr>
   \<and> an_id sample_analytics = ad_id sample_row
   \<and> analytics_save
        \<lparr>content = Some [sample_row], readable = True, writable = True, writes = 0\<rparr>
        sample_analytics
       = Inr (sample_analytics,
              \<lparr>content = Some [sample_row, sample_row], readable = True, writable = True,
               writes = 1\<rparr>)
   \<and> length (filter (\<lambda>x. ad_id x = ''a-1'') [sample_row, sample_row]) = 2"
proof -
  let ?d = "\<lparr>content = Some [sample_row], readable = True, writable = True, writes = 0\<rparr>"
  have a: "readable ?d \<and> writable ?d" by simp
  from a analytics_save_appends [of ?d sample_analytics]
  obtain d' where d': "analytics_save ?d sample_analytics = Inr (sample_analytics, d')"
    by blast
  with analytics_save_appends [of ?d sample_analytics]
  have "stored d' = stored ?d @
              [\<lparr>ad_id = an_id sample_analytics, ad_user_id = an_user_id sample_analytics,
                ad_event_type = event_value (an_event_type sample_analytics),
                ad_platform = an_platform sample_analytics,
                ad_media_type = an_media_type sample_analytics,
                ad_url = an_url sample_analytics, ad_file_size = an_file_size sample_analytics,
                ad_processing_time = an_processing_time sample_analytics,
                ad_success = an_success sample_analytics,
                ad_error_message = an_error_message sample_analytics,
                ad_metadata = an_metadata sample_analytics,
                ad_created_at = an_created_at sample_analytics\<rparr>]"
    by blast
  then have s: "stored d' = [sample_row, sample_row]"
    by (simp add: stored_def sample_row_def sample_analytics_def)
  have w: "d' = \<lparr>content = Some [sample_row, sample_row], readable = True, writable = True,
               writes = 1\<rparr>"
    using d' by (simp add: analytics_save_def read_data_def write_data_def
        analytics_to_dict_def sample_row_def sample_analytics_def)
  have i: "an_id sample_analytics = ad_id sample_row"
    by (simp add: sample_row_def sample_analytics_def)
  have f: "length (filter (\<lambda>x. ad_id x = ''a-1'') [sample_row, sample_row]) = 2"
    by (simp add: sample_row_def)
  from a d' w i f show ?thesis by simp
qed

lemma update_first_None:
  "update_first rid f xs = None \<longleftrightarrow> rid \<notin> rd_id ` set xs"
  by (induction xs) auto

lemma update_first_Some:
  "update_first rid f xs = Some ys \<Longrightarrow>
     \<exists>pre x post. xs = pre @ x # post \<and> rid \<notin> rd_id ` set pre \<and> rd_id x = rid
        \<and> ys = pre @ f x # post"
proof (induction xs arbitrary: ys)
  case Nil
  then show ?case by simp
next
  case (Cons a xs)
  show ?case
  proof (cases "rd_id a = rid")
    case True
    with Cons.prems have "ys = f a # xs" by simp
    with True have "a # xs = [] @ a # xs \<and> rid \<notin> rd_id ` set [] \<and> rd_id a = rid
        \<and> ys = [] @ f a # xs" by simp
    then show ?thesis by blast
  next
    case False
    with Cons.prems obtain zs where zs: "update_first rid f xs = Some zs" "ys = a # zs"
      by auto
    from Cons.IH [OF zs(1)] obtain pre x post where
      p: "xs = pre @ x # post" "rid \<notin> rd_id ` set pre" "rd_id x = rid" "zs = pre @ f x # post"
      by blast
    with False zs have "a # xs = (a # pre) @ x # post \<and> rid \<notin> rd_id ` set (a # pre)
        \<and> rd_id x = rid \<and> ys = (a # pre) @ f x # post" by auto
    then show ?thesis by blast
  qed
qed

lemma set_status_eq:
  "set_status now st msg x =
     x\<lparr>rd_status := st,
       rd_error_message := (if truthy msg then msg else rd_error_message x),
       rd_started_at := (if st = ''processing'' then Some now else rd_started_at x),
       rd_completed_at :=
         (if st = ''completed'' \<or> st = ''failed'' \<or> st = ''cancelled'' then Some now
          else rd_completed_at x)\<rparr>"
  by (simp add: set_status_def Let_def)



text \<open>
  Claim C8, as stated: for every status value \<open>update_status\<close> writes exactly one time
  stamp of the matching record. It fails for a status outside the four named ones:
  setting a failed request back to pending changes the status and neither stamp.
\<close>

theorem update_status_pending_counterexample:
  "update_status 5000000 sample_request_disk ''req-2'' ''pending'' None
     = Inr (True, sample_request_disk
              \<lparr>content := Some [request_to_dict sample_request,
                                 (request_to_dict (sample_failed\<lparr>req_id := ''req-2''\<rparr>))
                                   \<lparr>rd_status := ''pending''\<rparr>],
               writes := 1\<rparr>)
   \<and> rd_started_at ((request_to_dict (sample_failed\<lparr>req_id := ''req-2''\<rparr>))
                       \<lparr>rd_status := ''pending''\<rparr>) = Some 1000000
   \<and> rd_completed_at ((request_to_dict (sample_failed\<lparr>req_id := ''req-2''\<rparr>))
                       \<lparr>rd_status := ''pending''\<rparr>) = Some 3000000"
  by (simp add: update_status_def read_data_def write_data_def sample_request_disk_def
      request_to_dict_def sample_request_def sample_failed_def DownloadRequest_def
      post_init_def fail_def start_processing_def set_status_def truthy_def Let_def)

text \<open>
  Claim C8, amended. On a store that parses, \<open>update_status\<close> returns whenever the file can be
  read and written. When it returns, the result is true if and only if a record with
  the given id is stored; when it is false the file is untouched (no write is made);
  when it is true exactly the first record with that id is replaced, every record
  before and after it is kept, and in the replaced record only these fields can
  differ: the status, which becomes the given value; the error message, replaced only
  when a non-empty message is given; \<open>completed_at\<close>, stamped when the status is
  completed, failed or cancelled; \<open>started_at\<close>, stamped when the status is processing
  (so at most one of the two stamps is written, and none for any other status value).
  Processing time, media files, retry count and metadata are unchanged.
\<close>

theorem update_status_frame:
  assumes "content d = Some data"
  shows "(readable d \<and> writable d \<longrightarrow> (\<exists>b d'. update_status now d rid st msg = Inr (b, d')))
   \<and> (\<forall>b d'. update_status now d rid st msg = Inr (b, d') \<longrightarrow>
        (b \<longleftrightarrow> rid \<in> rd_id ` set data)
        \<and> (\<not> b \<longrightarrow> d' = d)
        \<and> (b \<longrightarrow> (\<exists>pre x x' post.
              data = pre @ x # post \<and> rid \<notin> rd_id ` set pre \<and> rd_id x = rid
              \<and> stored d' = pre @ x' # post
              \<and> x' = x\<lparr>rd_status := st,
                       rd_error_message := (if truthy msg then msg else rd_error_message x),
                       rd_started_at := (if st = ''processing'' then Some now else rd_started_at x),
                       rd_completed_at :=
                         (if st = ''completed'' \<or> st = ''failed'' \<or> st = ''cancelled''
                          then Some now else rd_completed_at x)\<rparr>
              \<and> rd_processing_time x' = rd_processing_time x
              \<and> rd_media_files x' = rd_media_files x
              \<and> rd_retry_count x' = rd_retry_count x
              \<and> rd_metadata x' = rd_metadata x)))"
proof (intro conjI impI allI)
  assume "readable d \<and> writable d"
  with assms show "\<exists>b d'. update_status now d rid st msg = Inr (b, d')"
    by (auto simp: update_status_def read_data_def write_data_def split: option.splits)
next
  fix b d' assume u: "update_status now d rid st msg = Inr (b, d')"
  show "b \<longleftrightarrow> rid \<in> rd_id ` set data"
  proof (cases "update_first rid (set_status now st msg) data")
    case None
    with u assms have "\<not> b"
      by (auto simp: update_status_def read_data_def split: if_splits)
    with None show ?thesis by (simp add: update_first_None)
  next
    case (Some data')
    with u assms have b
      by (auto simp: update_status_def read_data_def write_data_def split: if_splits)
    moreover from Some have "rid \<in> rd_id ` set data"
      using update_first_None [of rid "set_status now st msg" data] by auto
    ultimately show ?thesis by simp
  qed
next
  fix b d' assume u: "update_status now d rid st msg = Inr (b, d')" and "\<not> b"
  with assms show "d' = d"
    by (auto simp: update_status_def read_data_def write_data_def
        split: if_splits option.splits)
next
  fix b d' assume u: "update_status now d rid st msg = Inr (b, d')" and b
  with assms obtain data' where
    d: "update_first rid (set_status now st msg) data = Some data'" "stored d' = data'"
    by (auto simp: update_status_def read_data_def write_data_def stored_def
        split: if_splits option.splits)
  from update_first_Some [OF d(1)] obtain pre x post where
    p: "data = pre @ x # post" "rid \<notin> rd_id ` set pre" "rd_id x = rid"
       "data' = pre @ set_status now st msg x # post" by blast
  let ?x' = "set_status now st msg x"
  have "rd_processing_time ?x' = rd_processing_time x \<and> rd_media_files ?x' = rd_media_files x
     \<and> rd_retry_count ?x' = rd_retry_count x \<and> rd_metadata ?x' = rd_metadata x"
    by (simp add: set_status_eq)
  with p d(2) set_status_eq [of now st msg x]
  show "\<exists>pre x x' post.
              data = pre @ x # post \<and> rid \<notin> rd_id ` set pre \<and> rd_id x = rid
              \<and> stored d' = pre @ x' # post
              \<and> x' = x\<lparr>rd_status := st,
                       rd_error_message := (if truthy msg then msg else rd_error_message x),
                       rd_started_at := (if st = ''processing'' then Some now else rd_started_at x),
                       rd_completed_at :=
                         (if st = ''completed'' \<or> st = ''failed'' \<or> st = ''cancelled''
                          then Some now else rd_completed_at x)\<rparr>
              \<and> rd_processing_time x' = rd_processing_time x
              \<and> rd_media_files x' = rd_media_files x
              \<and> rd_retry_count x' = rd_retry_count x
              \<and> rd_metadata x' = rd_metadata x"
    by metis
qed


theorem update_status_frame_witness:
  "content sample_request_disk
     = Some [request_to_dict sample_request, request_to_dict (sample_failed\<lparr>req_id := ''req-2''\<rparr>)]
   \<and> ''req-1'' \<in> rd_id ` set [request_to_dict sample_request,
                                 request_to_dict (sample_failed\<lparr>req_id := ''req-2''\<rparr>)]
   \<and> update_status 5000000 sample_request_disk ''req-1'' ''processing'' None
     = Inr (True, sample_request_disk
              \<lparr>content := Some [(request_to_dict sample_request)
                                   \<lparr>rd_status := ''processing'', rd_started_at := Some 5000000\<rparr>,
                                 request_to_dict (sample_failed\<lparr>req_id := ''req-2''\<rparr>)],
               writes := 1\<rparr>)
   \<and> update_status 5000000 sample_request_disk ''req-9'' ''processing'' None
     = Inr (False, sample_request_disk)"
proof -
  have a: "content sample_request_disk
     = Some [request_to_dict sample_request, request_to_dict (sample_failed\<lparr>req_id := ''req-2''\<rparr>)]"
    by (simp add: sample_request_disk_def)
  have ids: "rd_id (request_to_dict sample_request) = ''req-1''"
    "rd_id (request_to_dict (sample_failed\<lparr>req_id := ''req-2''\<rparr>)) = ''req-2''"
    by (simp_all add: request_to_dict_def sample_request_def DownloadRequest_def post_init_def
        Let_def)
  have b: "update_status 5000000 sample_request_disk ''req-1'' ''processing'' None
     = Inr (True, sample_request_disk
              \<lparr>content := Some [(request_to_dict sample_request)
                                   \<lparr>rd_status := ''processing'', rd_started_at := Some 5000000\<rparr>,
                                 request_to_dict (sample_failed\<lparr>req_id := ''req-2''\<rparr>)],
               writes := 1\<rparr>)"
    by (simp add: update_status_def read_data_def write_data_def sample_request_disk_def ids
        set_status_def truthy_def Let_def)
  have c: "\<exists>b d'. update_status 5000000 sample_request_disk ''req-9'' ''processing'' None
     = Inr (b, d')"
    using update_status_frame [OF a, of 5000000 "''req-9''" "''processing''" None]
    by (simp add: sample_request_disk_def)
  then obtain b0 d0 where c0: "update_status 5000000 sample_request_disk ''req-9'' ''processing'' None
     = Inr (b0, d0)" by blast
  have "''req-9'' \<notin> rd_id ` set [request_to_dict sample_request,
                                 request_to_dict (sample_failed\<lparr>req_id := ''req-2''\<rparr>)]"
    by (simp add: ids)
  with c0 update_status_frame [OF a, of 5000000 "''req-9''" "''processing''" None]
  have "\<not> b0 \<and> d0 = sample_request_disk" by blast
  with c0 a b ids show ?thesis by simp
qed


section \<open>Properties of the rate limiter\<close>

lemma read_ok:
  "readable d \<Longrightarrow> content d = Some data \<Longrightarrow> read_data blank d = Inr (data, d)"
  by (simp add: read_data_def)

lemma write_ok:
  "writable d \<Longrightarrow> write_data d x = Inr (d\<lparr>content := Some x, writes := Suc (writes d)\<rparr>)"
  by (simp add: write_data_def)

lemma download_config:
  "custom_limits ud = None \<Longrightarrow>
     get_limit_config ud ''download'' = \<lparr>requests = 5, period_seconds = 300\<rparr>"
  by (simp add: get_limit_config_def default_limits_def DOWNLOAD_RATE_LIMIT_def
      DOWNLOAD_RATE_PERIOD_def)

lemma increment_first:
  assumes "readable d" "writable d" "content d = Some data" "data uid = None"
  shows "increment_usage now d uid ''download'' =
     (True, d\<lparr>content := Some (counted data uid 1 (now + seconds 300)),
              writes := Suc (writes d)\<rparr>)"
  using assms
  by (simp add: increment_usage_def read_ok write_ok get_user_def empty_user_data_def
      download_config counted_def Let_def seconds_def)

lemma increment_next:
  assumes "readable d" "writable d" "content d = Some (counted data uid n rt)" "now < rt"
  shows "increment_usage now d uid ''download'' =
     (True, d\<lparr>content := Some (counted data uid (n + 1) rt), writes := Suc (writes d)\<rparr>)"
  using assms
  by (simp add: increment_usage_def read_ok write_ok get_user_def
      download_config counted_def Let_def)

lemma increments_state:
  assumes "readable d" "writable d" "content d = Some data" "data uid = None"
    and "\<forall>t \<in> set ts. t < t1 + seconds 300"
  shows "increments d uid ''download'' (t1 # ts) =
     d\<lparr>content := Some (counted data uid (1 + int (length ts)) (t1 + seconds 300)),
       writes := writes d + Suc (length ts)\<rparr>"
  using assms(5)
proof (induction ts rule: rev_induct)
  case Nil
  show ?case
    using increment_first [OF assms(1-4), of t1] by (simp add: increments_def)
next
  case (snoc t ts)
  let ?d = "d\<lparr>content := Some (counted data uid (1 + int (length ts)) (t1 + seconds 300)),
       writes := writes d + Suc (length ts)\<rparr>"
  from snoc have w: "increments d uid ''download'' (t1 # ts) = ?d" by simp
  have r: "readable ?d" "writable ?d"
    "content ?d = Some (counted data uid (1 + int (length ts)) (t1 + seconds 300))"
    using assms(1,2) by simp_all
  from snoc.prems have lt: "t < t1 + seconds 300" by simp
  have "increments d uid ''download'' (t1 # ts @ [t]) =
      snd (increment_usage t (increments d uid ''download'' (t1 # ts)) uid ''download'')"
    by (simp add: increments_def)
  also have "\<dots> = snd (increment_usage t ?d uid ''download'')" by (simp only: w)
  also have "\<dots> = ?d\<lparr>content := Some (counted data uid (1 + int (length ts) + 1) (t1 + seconds 300)),
        writes := Suc (writes ?d)\<rparr>"
    using increment_next [OF r lt] by simp
  finally show ?case by (simp add: add.commute add.left_commute)
qed

lemma limited_counted:
  assumes "readable d" "content d = Some (counted data uid n rt)"
  shows "fst (is_rate_limited now0 now d uid ''download'') = (now < rt \<and> 5 \<le> n)"
  using assms
  by (simp add: is_rate_limited_def is_user_blocked_def read_ok get_user_def counted_def
      download_config Let_def)

lemma info_counted:
  assumes "readable d" "content d = Some (counted data uid n rt)" "rt \<le> now"
  shows "ri_used (fst (get_rate_limit_info now d uid ''download'')) = 0"
    and "ri_remaining (fst (get_rate_limit_info now d uid ''download'')) = 5"
  using assms
  by (simp_all add: get_rate_limit_info_def read_ok get_user_def counted_def
      download_config Let_def)


text \<open>
  Claim C2, as stated: for a user with no prior state and the default download limit
  of 5 requests per 300 seconds, each of the first 5 \<open>increment_usage\<close> calls in the
  window leaves \<open>is_rate_limited\<close> false and the 6th makes it true. It fails at the
  5th call: after five counted downloads, one second apart, the user is already
  limited, since the test is \<open>used >= 5\<close>.
\<close>

theorem limited_after_fifth_counterexample:
  "fst (is_rate_limited 6000000 6000000
     (increments fresh_limits_disk 7 ''download'' [1000000, 2000000, 3000000, 4000000, 5000000])
     7 ''download'') = True"
  by (simp add: increments_def fresh_limits_disk_def increment_usage_def is_rate_limited_def
     is_user_blocked_def read_data_def write_data_def get_user_def empty_user_data_def
     get_limit_config_def default_limits_def DOWNLOAD_RATE_LIMIT_def
      DOWNLOAD_RATE_PERIOD_def Let_def seconds_def)

text \<open>
  Claim C2, amended. For a user with no prior state in a store that can be read and
  written, and the default download limit of 5 requests per 300 seconds: after \<open>n\<close>
  \<open>increment_usage\<close> calls, the first at \<open>t1\<close> and the others less than 300 seconds
  after it, \<open>is_rate_limited\<close> asked before \<open>t1\<close> + 300 s is true exactly when
  \<open>n >= 5\<close> (false after each of the first 4 calls, true from the 5th on); asked at
  or after \<open>t1\<close> + 300 s it is false again, and \<open>get_rate_limit_info\<close> reports
  \<open>used = 0\<close> and \<open>remaining = 5\<close>.
\<close>

theorem rate_limit_window:
  assumes "readable d" "writable d" "content d = Some data" "data uid = None"
    and "\<forall>t \<in> set ts. t < t1 + seconds 300"
  shows
    "(now < t1 + seconds 300 \<longrightarrow>
        fst (is_rate_limited now0 now (increments d uid ''download'' (t1 # ts)) uid ''download'')
          = (5 \<le> 1 + int (length ts)))
     \<and> (t1 + seconds 300 \<le> now \<longrightarrow>
        fst (is_rate_limited now0 now (increments d uid ''download'' (t1 # ts)) uid ''download'')
          = False
        \<and> ri_used (fst (get_rate_limit_info now (increments d uid ''download'' (t1 # ts))
              uid ''download'')) = 0
        \<and> ri_remaining (fst (get_rate_limit_info now (increments d uid ''download'' (t1 # ts))
              uid ''download'')) = 5)"
proof -
  let ?d = "d\<lparr>content := Some (counted data uid (1 + int (length ts)) (t1 + seconds 300)),
       writes := writes d + Suc (length ts)\<rparr>"
  have w: "increments d uid ''download'' (t1 # ts) = ?d"
    by (rule increments_state [OF assms])
  have r: "readable ?d"
    "content ?d = Some (counted data uid (1 + int (length ts)) (t1 + seconds 300))"
    using assms(1) by simp_all
  show ?thesis
    unfolding w
    using limited_counted [OF r, of now0 now] info_counted [OF r, of now]
    by auto
qed


theorem rate_limit_window_witness:
  "readable fresh_limits_disk \<and> writable fresh_limits_disk
   \<and> content fresh_limits_disk = Some Map.empty
   \<and> list_all (\<lambda>t. t < 1000000 + seconds 300) [2000000, 3000000, 4000000, 5000000]
   \<and> fst (is_rate_limited 6000000 6000000
        (increments fresh_limits_disk 7 ''download'' [1000000, 2000000, 3000000, 4000000])
        7 ''download'') = False
   \<and> fst (is_rate_limited 6000000 6000000
        (increments fresh_limits_disk 7 ''download''
           [1000000, 2000000, 3000000, 4000000, 5000000])
        7 ''download'') = True
   \<and> fst (is_rate_limited 400000000 400000000
        (increments fresh_limits_disk 7 ''download''
           [1000000, 2000000, 3000000, 4000000, 5000000])
        7 ''download'') = False
   \<and> ri_used (fst (get_rate_limit_info 400000000
        (increments fresh_limits_disk 7 ''download''
           [1000000, 2000000, 3000000, 4000000, 5000000])
        7 ''download'')) = 0
   \<and> ri_remaining (fst (get_rate_limit_info 400000000
        (increments fresh_limits_disk 7 ''download''
           [1000000, 2000000, 3000000, 4000000, 5000000])
        7 ''download'')) = 5"
proof -
  have a: "readable fresh_limits_disk" "writable fresh_limits_disk"
    "content fresh_limits_disk = Some Map.empty" "Map.empty (7::int) = (None :: user_data option)"
    by (simp_all add: fresh_limits_disk_def)
  have b: "\<forall>t \<in> set [2000000, 3000000, 4000000]. t < (1000000::int) + seconds 300"
    "\<forall>t \<in> set [2000000, 3000000, 4000000, 5000000]. t < (1000000::int) + seconds 300"
    by (simp_all add: seconds_def)
  have c: "(6000000::int) < 1000000 + seconds 300" "(1000000::int) + seconds 300 \<le> 400000000"
    by (simp_all add: seconds_def)
  from rate_limit_window [OF a b(1), of 6000000 6000000]
    rate_limit_window [OF a b(2), of 6000000 6000000]
    rate_limit_window [OF a b(2), of 400000000 400000000] a b c
  show ?thesis by simp
qed

lemma unblock_absent:
  assumes "readable d" "content d = Some data" "blocked_until (get_user data uid) = None"
  shows "unblock_user d uid = (True, d)"
  using assms
  by (auto simp: unblock_user_def read_ok get_user_def empty_user_data_def split: option.splits)

lemma unblock_present:
  assumes "readable d" "writable d" "content d = Some data" "data uid = Some ud"
    "blocked_until ud = Some b"
  shows "unblock_user d uid =
     (True, d\<lparr>content := Some (data(uid \<mapsto> ud\<lparr>blocked_until := None\<rparr>)),
              writes := Suc (writes d)\<rparr>)"
  using assms by (simp add: unblock_user_def read_ok write_ok)


text \<open>
  Claim C10. On a store that can be read and written and that parses,
  \<open>unblock_user\<close> returns true for every user id, with or without a stored entry or a
  block. It is idempotent: a second call returns true and leaves the file exactly as
  the first call left it. On a user without a block (or without an entry) it leaves
  the file as it was. \<open>reset_user_limits\<close> on a user without an entry returns true
  and leaves the file as it was.
\<close>

theorem unblock_user_idempotent:
  assumes "readable d" "writable d" "content d = Some data"
  shows "fst (unblock_user d uid) = True
   \<and> unblock_user (snd (unblock_user d uid)) uid = (True, snd (unblock_user d uid))
   \<and> (data uid = None \<or> blocked_until (get_user data uid) = None
        \<longrightarrow> unblock_user d uid = (True, d))
   \<and> (data uid = None \<longrightarrow> reset_user_limits d uid = (True, d))"
proof (cases "blocked_until (get_user data uid)")
  case None
  from unblock_absent [OF assms(1,3) None] have u: "unblock_user d uid = (True, d)" .
  moreover have "data uid = None \<longrightarrow> reset_user_limits d uid = (True, d)"
    using assms by (simp add: reset_user_limits_def read_ok)
  ultimately show ?thesis by simp
next
  case (Some b)
  then obtain ud where ud: "data uid = Some ud" "blocked_until ud = Some b"
    by (auto simp: get_user_def empty_user_data_def split: option.splits)
  let ?d = "d\<lparr>content := Some (data(uid \<mapsto> ud\<lparr>blocked_until := None\<rparr>)),
              writes := Suc (writes d)\<rparr>"
  from unblock_present [OF assms ud] have u: "unblock_user d uid = (True, ?d)" .
  have "unblock_user ?d uid = (True, ?d)"
    by (rule unblock_absent [where data = "data(uid \<mapsto> ud\<lparr>blocked_until := None\<rparr>)"])
      (simp_all add: assms get_user_def)
  with u ud Some show ?thesis by simp
qed

lemma blocked_limits_disk_eq: "blocked_limits_disk = fresh_limits_disk\<lparr>content := Some [7 \<mapsto> empty_user_data\<lparr>blocked_until := Some Permanent\<rparr>], writes := 1\<rparr>"
  by (simp add: blocked_limits_disk_def block_user_def fresh_limits_disk_def read_data_def write_data_def get_user_def Let_def)

theorem unblock_user_idempotent_witness:
  "readable blocked_limits_disk \<and> writable blocked_limits_disk
   \<and> fst (is_user_blocked 5 blocked_limits_disk 7) = True
   \<and> fst (unblock_user blocked_limits_disk 7) = True
   \<and> fst (is_user_blocked 5 (snd (unblock_user blocked_limits_disk 7)) 7) = False
   \<and> unblock_user (snd (unblock_user blocked_limits_disk 7)) 7
       = (True, snd (unblock_user blocked_limits_disk 7))
   \<and> unblock_user fresh_limits_disk 7 = (True, fresh_limits_disk)
   \<and> reset_user_limits fresh_limits_disk 7 = (True, fresh_limits_disk)"
proof -
  have a: "readable blocked_limits_disk" "writable blocked_limits_disk"
    "content blocked_limits_disk
       = Some [7 \<mapsto> empty_user_data\<lparr>blocked_until := Some Permanent\<rparr>]"
    by (simp_all add: blocked_limits_disk_eq fresh_limits_disk_def)
  have b: "readable fresh_limits_disk" "writable fresh_limits_disk"
    "content fresh_limits_disk = Some Map.empty"
    by (simp_all add: fresh_limits_disk_def)
  have c: "fst (is_user_blocked 5 blocked_limits_disk 7) = True"
    by (simp add: is_user_blocked_def read_ok [OF a(1,3)] get_user_def)
  have d: "fst (is_user_blocked 5 (snd (unblock_user blocked_limits_disk 7)) 7) = False"
    by (simp add: unblock_user_def is_user_blocked_def read_ok [OF a(1,3)] write_ok [OF a(2)]
        read_data_def get_user_def a empty_user_data_def)
  from unblock_user_idempotent [OF a, of 7] unblock_user_idempotent [OF b, of 7] a b c d
  show ?thesis by simp
qed


section \<open>Properties of the translation service\<close>

lemma dictionary_of_ensure_loaded [simp]:
  "dictionary_of (ensure_loaded st l) l' = dictionary_of st l'"
  by (auto simp: dictionary_of_def ensure_loaded_def load_language_def split: option.splits)

lemma cached_ensure_loaded [simp]:
  "cached (ensure_loaded st l) l = dictionary_of st l"
  by (auto simp: dictionary_of_def cached_def ensure_loaded_def load_language_def
      split: option.splits)

lemma get_text_value:
  "fst (get_text fmt st key l0 kwargs) =
     (let l = (if l0 \<notin> set SUPPORTED_LANGUAGES then DEFAULT_LANGUAGE else l0)
      in apply_format fmt
           (case map_of (dictionary_of st l) key of
              Some t \<Rightarrow> t
            | None \<Rightarrow>
                (if l \<noteq> ''en''
                 then (case map_of (dictionary_of st ''en'') key of Some t \<Rightarrow> t | None \<Rightarrow> key)
                 else key))
           kwargs)"
proof -
  have en: "cached (ensure_loaded (ensure_loaded st l) ''en'') ''en'' = dictionary_of st ''en''"
    for l
    by (simp only: cached_ensure_loaded dictionary_of_ensure_loaded)
  show ?thesis
    by (simp add: get_text_def Let_def en split: option.splits prod.splits)
qed

lemma missing_keys_ensure_loaded [simp]:
  "missing_keys (ensure_loaded st l) ks l' = missing_keys st ks l'"
  by (simp add: missing_keys_def)

lemma missing_loop_lookup:
  "map_of (fst (missing_loop ref ks st langs)) l =
     (if l \<in> set langs \<and> l \<noteq> ref \<and> missing_keys st ks l \<noteq> []
      then Some (missing_keys st ks l) else None)"
proof (induction langs arbitrary: st)
  case Nil
  then show ?case by simp
next
  case (Cons a langs)
  show ?case
  proof (cases "a = ref")
    case True
    with Cons.IH [of st] show ?thesis by auto
  next
    case False
    let ?st1 = "ensure_loaded st a"
    have mk: "remdups (filter (\<lambda>k. k \<notin> set (map fst (cached ?st1 a))) ks) = missing_keys st ks a"
      by (simp add: missing_keys_def)
    from Cons.IH [of ?st1] have ih: "map_of (fst (missing_loop ref ks ?st1 langs)) l =
     (if l \<in> set langs \<and> l \<noteq> ref \<and> missing_keys st ks l \<noteq> []
      then Some (missing_keys st ks l) else None)" by simp
    obtain m st2 where r: "missing_loop ref ks ?st1 langs = (m, st2)" by (cases "missing_loop ref ks ?st1 langs")
    with ih have ih': "map_of m l =
     (if l \<in> set langs \<and> l \<noteq> ref \<and> missing_keys st ks l \<noteq> []
      then Some (missing_keys st ks l) else None)" by simp
    have "fst (missing_loop ref ks st (a # langs)) =
       (if missing_keys st ks a \<noteq> [] then (a, missing_keys st ks a) # m else m)"
      using False r by (simp add: Let_def missing_keys_def del: set_map)
    with ih' False show ?thesis by auto
  qed
qed

lemma singleton_remdups:
  assumes "set xs = {k}"
  shows "remdups xs = [k]"
proof -
  have d: "distinct (remdups xs)" "set (remdups xs) = {k}" using assms by simp_all
  then obtain y ys where y: "remdups xs = y # ys" by (cases "remdups xs") auto
  with d have "y = k" by auto
  moreover from y d have "set ys \<subseteq> {k}" "k \<notin> set ys" using \<open>y = k\<close> by auto
  then have "ys = []" by (cases ys) auto
  ultimately show ?thesis using y by simp
qed

lemma get_missing_lookup:
  "map_of (fst (get_missing_translations st ref)) l =
     (if l \<in> set SUPPORTED_LANGUAGES \<and> l \<noteq> ref
         \<and> missing_keys st (map fst (dictionary_of st ref)) l \<noteq> []
      then Some (missing_keys st (map fst (dictionary_of st ref)) l) else None)"
  by (simp add: get_missing_translations_def Let_def missing_loop_lookup del: set_map)


text \<open>
  Claim C7. For every supported language other than English, \<open>get_text\<close> on a key
  that the language's dictionary lacks and the English dictionary has returns the
  English text, not the key (with format arguments, the English text formatted). On a
  key that neither the language's dictionary nor the English one has, \<open>get_text\<close>
  returns the key itself, for every supported language. For a language that lacks
  exactly one key of the English dictionary, \<open>get_missing_translations("en")\<close> maps
  the language to the one-element list of that key.
\<close>

theorem translation_fallback:
  "(l \<in> set SUPPORTED_LANGUAGES \<and> l \<noteq> ''en'' \<and> map_of (dictionary_of st l) key = None
      \<and> map_of (dictionary_of st ''en'') key = Some t
      \<longrightarrow> fst (get_text fmt st key l []) = t
          \<and> fst (get_text fmt st key l kwargs) = apply_format fmt t kwargs)
   \<and> (l \<in> set SUPPORTED_LANGUAGES \<and> map_of (dictionary_of st l) key = None
      \<and> map_of (dictionary_of st ''en'') key = None
      \<longrightarrow> fst (get_text fmt st key l []) = key)
   \<and> (l \<in> set SUPPORTED_LANGUAGES \<and> l \<noteq> ''en''
      \<and> set (map fst (dictionary_of st ''en'')) - set (map fst (dictionary_of st l)) = {k}
      \<longrightarrow> map_of (fst (get_missing_translations st ''en'')) l = Some [k])"
proof (intro conjI impI)
  assume a: "l \<in> set SUPPORTED_LANGUAGES \<and> l \<noteq> ''en'' \<and> map_of (dictionary_of st l) key = None
      \<and> map_of (dictionary_of st ''en'') key = Some t"
  then show "fst (get_text fmt st key l []) = t"
    by (simp add: get_text_value apply_format_def)
  from a show "fst (get_text fmt st key l kwargs) = apply_format fmt t kwargs"
    by (simp add: get_text_value)
next
  assume "l \<in> set SUPPORTED_LANGUAGES \<and> map_of (dictionary_of st l) key = None
      \<and> map_of (dictionary_of st ''en'') key = None"
  then show "fst (get_text fmt st key l []) = key"
    by (simp add: get_text_value apply_format_def)
next
  assume a: "l \<in> set SUPPORTED_LANGUAGES \<and> l \<noteq> ''en''
      \<and> set (map fst (dictionary_of st ''en'')) - set (map fst (dictionary_of st l)) = {k}"
  then have "set (filter (\<lambda>k. k \<notin> set (map fst (dictionary_of st l)))
       (map fst (dictionary_of st ''en''))) = {k}" by auto
  then have "missing_keys st (map fst (dictionary_of st ''en'')) l = [k]"
    unfolding missing_keys_def by (rule singleton_remdups)
  with a show "map_of (fst (get_missing_translations st ''en'')) l = Some [k]"
    by (simp add: get_missing_lookup)
qed


theorem translation_fallback_witness:
  "''ru'' \<in> set SUPPORTED_LANGUAGES
   \<and> map_of (dictionary_of sample_locales ''ru'') ''help'' = None
   \<and> map_of (dictionary_of sample_locales ''en'') ''help'' = Some ''How to use''
   \<and> fst (get_text no_format sample_locales ''help'' ''ru'' []) = ''How to use''
   \<and> fst (get_text no_format sample_locales ''nokey'' ''ru'' []) = ''nokey''
   \<and> map_of (fst (get_missing_translations sample_locales ''en'')) ''ru'' = Some [''help'']"
proof -
  have a: "''ru'' \<in> set SUPPORTED_LANGUAGES" "''ru'' \<noteq> ''en''"
    by (simp_all add: SUPPORTED_LANGUAGES_def)
  have b: "map_of (dictionary_of sample_locales ''ru'') ''help'' = None"
    "map_of (dictionary_of sample_locales ''en'') ''help'' = Some ''How to use''"
    "map_of (dictionary_of sample_locales ''ru'') ''nokey'' = None"
    "map_of (dictionary_of sample_locales ''en'') ''nokey'' = None"
    by (simp_all add: dictionary_of_def sample_locales_def)
  have c: "set (map fst (dictionary_of sample_locales ''en''))
      - set (map fst (dictionary_of sample_locales ''ru'')) = {''help''}"
    by (auto simp: dictionary_of_def sample_locales_def)
  from a b(1,2)
    translation_fallback [of "''ru''" sample_locales "''help''" "''How to use''" no_format "[]"]
  have t1: "fst (get_text no_format sample_locales ''help'' ''ru'' []) = ''How to use''"
    by blast
  from a b(3,4)
    translation_fallback [of "''ru''" sample_locales "''nokey''" "''x''" no_format "[]"]
  have t2: "fst (get_text no_format sample_locales ''nokey'' ''ru'' []) = ''nokey''"
    by blast
  from a c
    translation_fallback [of "''ru''" sample_locales "''help''" "''x''" no_format "[]" "''help''"]
  have t3: "map_of (fst (get_missing_translations sample_locales ''en'')) ''ru'' = Some [''help'']"
    by blast
  from a b t1 t2 t3 show ?thesis by blast
qed


section \<open>Properties of the download use case\<close>

























section \<open>Further properties\<close>

text \<open>
  Property X1. Routing is by first match in registration order: with the container's two
  adapters, a URL that an Instagram pattern matches goes to the Instagram adapter, any
  other URL that a TikTok pattern matches goes to the TikTok adapter, and every other
  URL has no handler.
\<close>

theorem dispatcher_first_match:
  "map_option cls (get_handler (container_downloaders T info dl) u) =
     (if instagram_can_handle T u then Some ''InstagramDownloaderService''
      else if tiktok_can_handle T u then Some ''TikTokDownloaderService'' else None)"
  by (rule handler_cases)

text \<open>
  Property X2. Each finishing operation, applied to a request whose start stamp is set, stamps the
  completion time and sets the processing time to the difference of the two stamps in
  seconds.
\<close>

theorem finish_sets_duration:
  "started_at r = Some s \<Longrightarrow>
     processing_time (complete_successfully now files tsize r) = Some (total_seconds (now - s))
     \<and> completed_at (complete_successfully now files tsize r) = Some now
     \<and> started_at (complete_successfully now files tsize r) = Some s
     \<and> processing_time (fail now msg r) = Some (total_seconds (now - s))
     \<and> completed_at (fail now msg r) = Some now
     \<and> started_at (fail now msg r) = Some s
     \<and> processing_time (cancel now r) = Some (total_seconds (now - s))
     \<and> completed_at (cancel now r) = Some now
     \<and> started_at (cancel now r) = Some s"
  by (simp add: complete_successfully_def fail_def cancel_def Let_def)

theorem finish_sets_duration_witness:
  "started_at (start_processing 1000000 sample_request) = Some 1000000
   \<and> processing_time (fail 3000000 ''boom'' (start_processing 1000000 sample_request)) = Some 2
   \<and> completed_at (fail 3000000 ''boom'' (start_processing 1000000 sample_request))
       = Some 3000000"
proof -
  have a: "started_at (start_processing 1000000 sample_request) = Some 1000000"
    by (simp add: start_processing_def)
  have b: "total_seconds (3000000 - 1000000) = 2" by (simp add: total_seconds_def)
  from finish_sets_duration [OF a, of 3000000 "[]" None "''boom''"] a b
  show ?thesis by simp
qed

end
